theory Spec2Isabelle
  imports Complex_Main
begin

section \<open>Numbers, vectors and errors\<close>

text \<open>
  The program is \<^verbatim>\<open>ase/calculators/acn.py\<close>, the acetonitrile potential. Its numbers
  are numpy \<^verbatim>\<open>float64\<close> values. Outside \<^verbatim>\<open>wrap\<close> they are modelled by the real numbers,
  so the statements about the rest are statements in exact arithmetic; in \<^verbatim>\<open>wrap\<close> the
  float64 rounding is written out (see below). Where numpy would produce
  \<^verbatim>\<open>inf\<close> or \<^verbatim>\<open>nan\<close> (a zero distance, a zero cell length on a periodic axis) the
  real model has no such value, and HOL's \<open>x / 0 = 0\<close> stands in its place.

  A row of an \<open>(n, 3)\<close> array is a \<open>vec\<close>; an \<open>(n, 3)\<close> array is a \<open>vec list\<close>.
\<close>

datatype vec = Vec (vx: real) (vy: real) (vz: real)

instantiation vec :: ab_group_add
begin

definition zero_vec :: vec where
  "zero_vec = Vec 0 0 0"

definition plus_vec :: "vec \<Rightarrow> vec \<Rightarrow> vec" where
  "plus_vec a b = Vec (vx a + vx b) (vy a + vy b) (vz a + vz b)"

definition minus_vec :: "vec \<Rightarrow> vec \<Rightarrow> vec" where
  "minus_vec a b = Vec (vx a - vx b) (vy a - vy b) (vz a - vz b)"

definition uminus_vec :: "vec \<Rightarrow> vec" where
  "uminus_vec a = Vec (- vx a) (- vy a) (- vz a)"

instance
  by standard (simp_all add: zero_vec_def plus_vec_def minus_vec_def uminus_vec_def vec.expand)

end

text \<open>Multiplication of a row by a scalar, \<^verbatim>\<open>c * v\<close> under numpy broadcasting.\<close>

definition smul :: "real \<Rightarrow> vec \<Rightarrow> vec" where
  "smul c v = Vec (c * vx v) (c * vy v) (c * vz v)"

text \<open>\<^verbatim>\<open>(v**2).sum()\<close> over the three components of a row.\<close>

definition norm2 :: "vec \<Rightarrow> real" where
  "norm2 v = (vx v)\<^sup>2 + (vy v)\<^sup>2 + (vz v)\<^sup>2"

text \<open>Column \<open>i\<close> of a row, for \<open>i\<close> in \<open>0, 1, 2\<close>, and its assignment.\<close>

definition coord :: "vec \<Rightarrow> nat \<Rightarrow> real" where
  "coord v i = (if i = 0 then vx v else if i = 1 then vy v else vz v)"

definition set_coord :: "vec \<Rightarrow> nat \<Rightarrow> real \<Rightarrow> vec" where
  "set_coord v i x =
     (if i = 0 then Vec x (vy v) (vz v)
      else if i = 1 then Vec (vx v) x (vz v)
      else Vec (vx v) (vy v) x)"

text \<open>The exceptions the module can raise.\<close>

datatype error =
    ValueError
  | IndexError
  | TypeError
  | ZeroDivisionError
  | AssertionError string

section \<open>Float64 rounding, for the wrap\<close>

text \<open>
  The properties of \<^verbatim>\<open>wrap\<close> are exact equalities and a bound that is met with
  equality, so there the rounding of float64 arithmetic decides and is written out.
  A float64 value is read as the real number it denotes. \<open>f64 x\<close> is \<open>x\<close> rounded to the
  nearest float64 value, ties to the even mantissa (53 bits, spacing \<open>2\<^sup>-\<^sup>1\<^sup>0\<^sup>7\<^sup>4\<close> in the
  subnormal range); every float operation is the exact operation followed by \<open>f64\<close>.
  Overflow to \<^verbatim>\<open>inf\<close> (beyond about \<open>1.8e308\<close>), \<^verbatim>\<open>nan\<close> and the sign of zero are
  not represented.
\<close>

definition pow2 :: "int \<Rightarrow> real" where
  "pow2 e = (if 0 \<le> e then 2 ^ nat e else 1 / 2 ^ nat (- e))"

definition round_even :: "real \<Rightarrow> int" where
  "round_even y =
     (let f = \<lfloor>y\<rfloor>; r = y - of_int f
      in if r < 1 / 2 then f else if 1 / 2 < r then f + 1 else if even f then f else f + 1)"

definition f64 :: "real \<Rightarrow> real" where
  "f64 x =
     (if x = 0 then 0
      else let e = max \<lfloor>log 2 \<bar>x\<bar>\<rfloor> (- 1022); u = pow2 (e - 52)
           in of_int (round_even (x / u)) * u)"

text \<open>
  C's \<^verbatim>\<open>fmod\<close>: the remainder of the division truncated towards zero, which is exact.
\<close>

definition fmod :: "real \<Rightarrow> real \<Rightarrow> real" where
  "fmod a b = a - b * of_int (if 0 \<le> a / b then \<lfloor>a / b\<rfloor> else \<lceil>a / b\<rceil>)"

text \<open>
  \<^verbatim>\<open>a % b\<close> on float64 arrays, as numpy computes it: \<^verbatim>\<open>mod = fmod(a, b)\<close>, and where
  \<^verbatim>\<open>mod\<close> is not zero and its sign differs from that of \<open>b\<close>, \<^verbatim>\<open>mod += b\<close>, a
  float addition. (For \<open>b = 0\<close> numpy gives \<^verbatim>\<open>nan\<close>; the model then gives \<open>a\<close>.)
\<close>

definition np_mod :: "real \<Rightarrow> real \<Rightarrow> real" where
  "np_mod a b =
     (let r = fmod a b
      in if r \<noteq> 0 \<and> (b < 0) \<noteq> (r < 0) then f64 (r + b) else r)"

text \<open>
  The expression \<^verbatim>\<open>(d + L / 2) % L - L / 2 - d\<close> of \<^verbatim>\<open>wrap\<close> on float64 values, each
  operation rounded.
\<close>

definition wrap_shift :: "real \<Rightarrow> real \<Rightarrow> real" where
  "wrap_shift d L = f64 (f64 (np_mod (f64 (d + f64 (L / 2))) L - f64 (L / 2)) - d)"

section \<open>Force-field parameters\<close>

text \<open>
  The module reads \<^verbatim>\<open>ase.units\<close> and \<^verbatim>\<open>ase.data.atomic_masses\<close>, which are not part
  of the sources at hand. Their values are parameters of the model.
\<close>

record units =
  Hartree :: real
  Bohr :: real
  kJ :: real
  mol :: real
  mass_H :: real
  mass_C :: real
  mass_N :: real

definition k_c :: "units \<Rightarrow> real" where
  "k_c u = Hartree u * Bohr u"

definition qMe :: real where "qMe = 206 / 1000"
definition qC :: real where "qC = 247 / 1000"
definition qN :: real where "qN = - 453 / 1000"

definition sigmaMe :: real where "sigmaMe = 3775 / 1000"
definition sigmaC :: real where "sigmaC = 3650 / 1000"
definition sigmaN :: real where "sigmaN = 3200 / 1000"

definition sigma :: "real list" where
  "sigma = [sigmaMe, sigmaC, sigmaN]"

definition epsilonMe :: "units \<Rightarrow> real" where
  "epsilonMe u = 7824 / 10000 * kJ u / mol u"
definition epsilonC :: "units \<Rightarrow> real" where
  "epsilonC u = 544 / 1000 * kJ u / mol u"
definition epsilonN :: "units \<Rightarrow> real" where
  "epsilonN u = 6276 / 10000 * kJ u / mol u"

definition epsilon :: "units \<Rightarrow> real list" where
  "epsilon u = [epsilonMe u, epsilonC u, epsilonN u]"

definition rMeC :: real where "rMeC = 1458 / 1000"
definition rCN :: real where "rCN = 1157 / 1000"
definition rMeN :: real where "rMeN = rMeC + rCN"

text \<open>Variables needed to distribute the forces on C to Me and N.\<close>

definition CMe :: real where "CMe = rCN / rMeN"
definition CN :: real where "CN = rMeC / rMeN"

definition mMe :: "units \<Rightarrow> real" where "mMe u = mass_C u + 3 * mass_H u"
definition mC :: "units \<Rightarrow> real" where "mC u = mass_C u"
definition mN :: "units \<Rightarrow> real" where "mN u = mass_N u"
definition MCN :: "units \<Rightarrow> real" where "MCN u = mC u * mN u"
definition MMeC :: "units \<Rightarrow> real" where "MMeC u = mC u * mMe u"
definition MMeN :: "units \<Rightarrow> real" where "MMeN u = mN u * mMe u"

definition NMe :: "units \<Rightarrow> real" where
  "NMe u = CMe / (CMe\<^sup>2 * MCN u + CN\<^sup>2 * MMeC u + MMeN u)"
definition NN :: "units \<Rightarrow> real" where
  "NN u = CN / (CMe\<^sup>2 * MCN u + CN\<^sup>2 * MMeC u + MMeN u)"

text \<open>
  The values of \<^verbatim>\<open>ase.units\<close> (CODATA 2014: electron volts and angstroms, rounded to
  the digits shown) and of \<^verbatim>\<open>ase.data.atomic_masses\<close> for H, C and N, used wherever a
  concrete input is evaluated.
\<close>

definition ase_units :: units where
  "ase_units = \<lparr> Hartree = 27211386 / 1000000, Bohr = 52917721 / 100000000,
                 kJ = 6241509126000000000000, mol = 602214085700000000000000,
                 mass_H = 1008 / 1000, mass_C = 12011 / 1000, mass_N = 14007 / 1000 \<rparr>"

section \<open>Slices with step three\<close>

text \<open>\<^verbatim>\<open>xs[s::3]\<close> is \<open>every3 (drop s xs)\<close>.\<close>

fun every3 :: "'a list \<Rightarrow> 'a list" where
  "every3 (x # y # z # xs) = x # every3 xs"
| "every3 [x, y] = [x]"
| "every3 [x] = [x]"
| "every3 [] = []"

text \<open>
  \<^verbatim>\<open>xs[s::3] = vs\<close> is \<open>take s xs @ assign3 (drop s xs) vs\<close>, and
  \<^verbatim>\<open>xs[s::3] += vs\<close> is \<open>take s xs @ add3 (drop s xs) vs\<close>, for \<open>vs\<close> as long as the
  slice (numpy raises otherwise; the callers below always pass that length).
\<close>

fun assign3 :: "'a list \<Rightarrow> 'a list \<Rightarrow> 'a list" where
  "assign3 (x # y # z # xs) (v # vs) = v # y # z # assign3 xs vs"
| "assign3 [x, y] (v # vs) = [v, y]"
| "assign3 [x] (v # vs) = [v]"
| "assign3 xs vs = xs"

fun add3 :: "vec list \<Rightarrow> vec list \<Rightarrow> vec list" where
  "add3 (x # y # z # xs) (v # vs) = (x + v) # y # z # add3 xs vs"
| "add3 [x, y] (v # vs) = [x + v, y]"
| "add3 [x] (v # vs) = [x + v]"
| "add3 xs vs = xs"

definition slice3 :: "nat \<Rightarrow> 'a list \<Rightarrow> 'a list" where
  "slice3 s xs = every3 (drop s xs)"

definition set_slice3 :: "nat \<Rightarrow> 'a list \<Rightarrow> 'a list \<Rightarrow> 'a list" where
  "set_slice3 s xs vs = take s xs @ assign3 (drop s xs) vs"

definition add_slice3 :: "nat \<Rightarrow> vec list \<Rightarrow> vec list \<Rightarrow> vec list" where
  "add_slice3 s xs vs = take s xs @ add3 (drop s xs) vs"

section \<open>Minimum-image wrap\<close>

text \<open>
  \<^verbatim>\<open>
  def wrap(D, cell, pbc):
      shift = np.zeros_like(D)
      for i, periodic in enumerate(pbc):
          if periodic:
              d = D[:, i]
              L = cell[i]
              shift[:, i] = (d + L / 2) % L - L / 2 - d
      return shift
  \<close>
  \<open>cell\<close> is the diagonal of the cell, \<open>pbc\<close> the three periodicity flags of the
  snapshot. \<open>D\<close> is read and never written.
\<close>

type_synonym pbc = "bool \<times> bool \<times> bool"

definition enumerate_pbc :: "pbc \<Rightarrow> (nat \<times> bool) list" where
  "enumerate_pbc p = (case p of (a, b, c) \<Rightarrow> [(0, a), (1, b), (2, c)])"

definition wrap_axis :: "vec list \<Rightarrow> vec \<Rightarrow> nat \<times> bool \<Rightarrow> vec list \<Rightarrow> vec list" where
  "wrap_axis D cell ip shift =
     (case ip of (i, periodic) \<Rightarrow>
        if periodic then
          (let L = coord cell i in
           map2 (\<lambda>dv sv. set_coord sv i (wrap_shift (coord dv i) L)) D shift)
        else shift)"

definition wrap :: "vec list \<Rightarrow> vec \<Rightarrow> pbc \<Rightarrow> vec list" where
  "wrap D cell p = fold (wrap_axis D cell) (enumerate_pbc p) (map (\<lambda>_. 0) D)"

section \<open>Lorentz-Berthelot combining rule\<close>

text \<open>
  \<^verbatim>\<open>
  def CombineLJ_lorenz_berthelot(sigma, epsilon):
      sigma_c=np.zeros((len(sigma), len(sigma)))
      epsilon_c=np.zeros_like(sigma_c)
      for ii in range(len(sigma)):
          sigma_c[:, ii]=(sigma[ii]+sigma)/2
          epsilon_c[:, ii]=(epsilon[ii]*epsilon)**0.5
      return sigma_c, epsilon_c
  \<close>
  A matrix is the list of its rows. \<^verbatim>\<open>x**0.5\<close> is the square root (numpy gives
  \<^verbatim>\<open>nan\<close> for a negative \<open>x\<close>). With \<open>epsilon\<close> of another length than \<open>sigma\<close> the
  column assignment raises: \<^verbatim>\<open>epsilon[ii]\<close> is out of range, or the column cannot be
  broadcast (a column of length one can).
\<close>

type_synonym matrix = "real list list"

definition set_col :: "matrix \<Rightarrow> nat \<Rightarrow> real list \<Rightarrow> matrix" where
  "set_col M j col = map2 (\<lambda>row v. row[j := v]) M col"

definition broadcast_col :: "nat \<Rightarrow> real list \<Rightarrow> error + real list" where
  "broadcast_col k col =
     (if length col = k then Inr col
      else if length col = 1 then Inr (replicate k (col ! 0))
      else Inl ValueError)"

definition combine_step ::
  "real list \<Rightarrow> real list \<Rightarrow> nat \<Rightarrow> error + matrix \<times> matrix \<Rightarrow> error + matrix \<times> matrix" where
  "combine_step sg ep ii acc =
     (case acc of
        Inl e \<Rightarrow> Inl e
      | Inr (sigma_c, epsilon_c) \<Rightarrow>
          let sigma_c' = set_col sigma_c ii (map (\<lambda>s. (sg ! ii + s) / 2) sg) in
          if length ep \<le> ii then Inl IndexError
          else (case broadcast_col (length sg) (map (\<lambda>e. sqrt (ep ! ii * e)) ep) of
                  Inl e \<Rightarrow> Inl e
                | Inr col \<Rightarrow> Inr (sigma_c', set_col epsilon_c ii col)))"

definition CombineLJ_lorenz_berthelot ::
  "real list \<Rightarrow> real list \<Rightarrow> error + matrix \<times> matrix" where
  "CombineLJ_lorenz_berthelot sg ep =
     (let k = length sg;
          zeros = replicate k (replicate k 0)
      in fold (combine_step sg ep) [0..<k] (Inr (zeros, zeros)))"

section \<open>Calculator objects\<close>

text \<open>
  \<^verbatim>\<open>PointChargePotential\<close> holds the external charges, their positions (None until
  \<^verbatim>\<open>set_positions\<close>, and again after \<^verbatim>\<open>calculate\<close>) and the forces on them.
  \<^verbatim>\<open>mmforces\<close> is None after construction, an array of rows after a calculation, and
  the zero-dimensional object array that \<^verbatim>\<open>np.zeros_like(None)\<close> returns when
  \<^verbatim>\<open>calculate\<close> is entered without positions.
\<close>

datatype mmforces_value = NoForces | ZeroObject | Forces "vec list"

record PointChargePotential =
  mmcharges :: "real list"
  mmpositions :: "vec list option"
  mmforces :: mmforces_value

text \<open>The calculator: \<^verbatim>\<open>ACN(rc=5.0, width=1.0)\<close>, with \<^verbatim>\<open>pcpot = None\<close> until \<^verbatim>\<open>embed\<close>.\<close>

record ACN =
  rc :: real
  width :: real
  pcpot :: "PointChargePotential option"

definition ACN_init :: "real \<Rightarrow> real \<Rightarrow> ACN" where
  "ACN_init r w = \<lparr> rc = r, width = w, pcpot = None \<rparr>"

definition PointChargePotential_init :: "real list \<Rightarrow> PointChargePotential" where
  "PointChargePotential_init charges =
     \<lparr> mmcharges = charges, mmpositions = None, mmforces = NoForces \<rparr>"

definition embed :: "ACN \<Rightarrow> real list \<Rightarrow> ACN" where
  "embed self charges = self\<lparr> pcpot := Some (PointChargePotential_init charges) \<rparr>"


text \<open>
  The snapshot: the atoms (atomic number, position, initial charge), the cell matrix as
  its three rows, and the periodicity flags.
\<close>

record atom =
  number :: nat
  position :: vec
  charge :: real

record snapshot =
  atoms :: "atom list"
  cell :: "vec \<times> vec \<times> vec"
  pbc :: pbc

section \<open>Switching function\<close>

text \<open>
  \<^verbatim>\<open>
  def cutoff(self, d):
      x1 = d > self.rc - self.width
      x2 = d < self.rc
      x12 = np.logical_and(x1, x2)
      y = (d[x12] - self.rc + self.width) / self.width
      cut = np.zeros(len(d))  # cutoff function
      cut[x2] = 1.0
      cut[x12] -= y**2 * (3.0 - 2.0 * y)
      dtdd = np.zeros(len(d))
      dtdd[x12] -= 6.0 / self.width * y * (1.0 - y)
      return cut, dtdd
  \<close>
  \<open>rc\<close> and \<open>width\<close> are Python floats, so \<^verbatim>\<open>6.0 / self.width\<close> raises
  ZeroDivisionError for a zero width; the array division two lines above does not raise.
\<close>

text \<open>Boolean-mask indexing: \<^verbatim>\<open>xs[mask]\<close>, \<^verbatim>\<open>xs[mask] = c\<close> and \<^verbatim>\<open>xs[mask] -= ys\<close>.\<close>

fun mask_select :: "'a list \<Rightarrow> bool list \<Rightarrow> 'a list" where
  "mask_select (x # xs) (b # bs) = (if b then x # mask_select xs bs else mask_select xs bs)"
| "mask_select xs bs = []"

fun mask_set :: "real list \<Rightarrow> bool list \<Rightarrow> real \<Rightarrow> real list" where
  "mask_set (x # xs) (b # bs) c = (if b then c else x) # mask_set xs bs c"
| "mask_set xs bs c = xs"

fun mask_sub :: "real list \<Rightarrow> bool list \<Rightarrow> real list \<Rightarrow> real list" where
  "mask_sub (x # xs) (True # bs) (y # ys) = (x - y) # mask_sub xs bs ys"
| "mask_sub (x # xs) (False # bs) ys = x # mask_sub xs bs ys"
| "mask_sub xs bs ys = xs"

definition cutoff :: "ACN \<Rightarrow> real list \<Rightarrow> error + real list \<times> real list" where
  "cutoff self d =
     (let x1 = map (\<lambda>v. v > rc self - width self) d;
          x2 = map (\<lambda>v. v < rc self) d;
          x12 = map2 (\<and>) x1 x2;
          y = map (\<lambda>v. (v - rc self + width self) / width self) (mask_select d x12);
          cutw = replicate (length d) 0;
          cutw = mask_set cutw x2 1;
          cutw = mask_sub cutw x12 (map (\<lambda>t. t\<^sup>2 * (3 - 2 * t)) y);
          dtdd = replicate (length d) 0
      in if width self = 0 then Inl ZeroDivisionError
         else Inr (cutw, mask_sub dtdd x12 (map (\<lambda>t. 6 / width self * t * (1 - t)) y)))"

section \<open>Sequence checks and charge assignment\<close>

text \<open>
  \<^verbatim>\<open>(a == b).all()\<close> is the conjunction of the comparisons. \<^verbatim>\<open>(a == b).all\<close>, without
  the call, is the bound method itself, and a method object is true in a condition
  whatever the array holds.
\<close>

definition np_all :: "bool list \<Rightarrow> bool" where
  "np_all bs = list_all (\<lambda>b. b) bs"

definition all_method :: "bool list \<Rightarrow> bool" where
  "all_method bs = True"

text \<open>
  \<^verbatim>\<open>
  def set_acn_charges(atoms, qmidx=0):
      charges = np.empty(len(atoms))
      if atoms.numbers[qmidx] == 7:
         n = qmidx
         me = qmidx+2
      else:
         n = qmidx+2
         me = qmidx
      assert (atoms.numbers[n::3] == 7).all, 'Not the correct atoms sequence'
      assert (atoms.numbers[qmidx+1::3] == 6).all, 'Not the correct atoms sequence'
      charges[me::3] = qMe
      charges[qmidx+1::3] = qC
      charges[n::3] = qN
      atoms.set_initial_charges(charges)
  \<close>
  \<open>uninit\<close> is what \<^verbatim>\<open>np.empty(len(atoms))\<close> holds, one unspecified number per atom;
  \<open>qmidx\<close> is a non-negative index. The result is the atoms with their new charges.
\<close>

definition fill_slice3 :: "nat \<Rightarrow> real list \<Rightarrow> real \<Rightarrow> real list" where
  "fill_slice3 s xs c = set_slice3 s xs (replicate (length (slice3 s xs)) c)"

definition set_initial_charges :: "atom list \<Rightarrow> real list \<Rightarrow> atom list" where
  "set_initial_charges ats charges = map2 (\<lambda>a q. a\<lparr> charge := q \<rparr>) ats charges"

definition set_acn_charges :: "atom list \<Rightarrow> nat \<Rightarrow> real list \<Rightarrow> error + atom list" where
  "set_acn_charges ats qmidx uninit =
     (let charges = uninit;
          numbers = map number ats
      in if length numbers \<le> qmidx then Inl IndexError
         else
           let (n, me) = (if numbers ! qmidx = 7 then (qmidx, qmidx + 2) else (qmidx + 2, qmidx))
           in if \<not> all_method (map (\<lambda>z. z = 7) (slice3 n numbers))
                then Inl (AssertionError ''Not the correct atoms sequence'')
              else if \<not> all_method (map (\<lambda>z. z = 6) (slice3 (qmidx + 1) numbers))
                then Inl (AssertionError ''Not the correct atoms sequence'')
              else
                let charges = fill_slice3 me charges qMe;
                    charges = fill_slice3 (qmidx + 1) charges qC;
                    charges = fill_slice3 n charges qN
                in Inr (set_initial_charges ats charges))"

text \<open>
  The checks of \<^verbatim>\<open>ACN.calculate\<close> (lines 115 to 126), which give the offsets \<open>n\<close> and
  \<open>me\<close> of nitrogen and methyl:
  \<^verbatim>\<open>
  if Z[0] == 7:
      n = 0
      me = 2
  else:
      n = 2
      me = 0
  assert (Z[n::3] == 7).all(), 'Not the correct atoms sequence'
  assert (Z[1::3] == 6).all, 'Not the correct atoms sequence'
  \<close>
\<close>

definition check_sequence :: "nat list \<Rightarrow> error + nat \<times> nat" where
  "check_sequence Z =
     (case Z of
        [] \<Rightarrow> Inl IndexError
      | z0 # _ \<Rightarrow>
          let (n, me) = (if z0 = 7 then (0, 2) else (2, 0))
          in if \<not> np_all (map (\<lambda>z. z = 7) (slice3 n Z))
               then Inl (AssertionError ''Not the correct atoms sequence'')
             else if \<not> all_method (map (\<lambda>z. z = 6) (slice3 1 Z))
               then Inl (AssertionError ''Not the correct atoms sequence'')
             else Inr (n, me))"

section \<open>Rigid-body force redistribution\<close>

text \<open>
  \<^verbatim>\<open>
  def redistribute_forces(self, n, me, f_old):
      f_new = np.zeros_like(f_old)
      f_new[n::3, :] = (1-NN*MMeC*CN)*f_old[n::3, :]-NN*MCN*CMe*f_old[me::3, :]+NN*MMeN*f_old[1::3, :]
      f_new[me::3, :] = (1-NMe*MCN*CMe)*f_old[me::3, :]-NMe*MMeC*CN*f_old[n::3, :]+NMe*MMeN*f_old[1::3, :]
      return f_new
  \<close>
  \<^verbatim>\<open>calculate\<close> calls it with \<open>(n, me)\<close> either \<open>(0, 2)\<close> or \<open>(2, 0)\<close> and three rows per
  molecule, so the three slices have one row per molecule each; the model is for such
  arguments.
\<close>

definition map3 :: "('a \<Rightarrow> 'b \<Rightarrow> 'c \<Rightarrow> 'd) \<Rightarrow> 'a list \<Rightarrow> 'b list \<Rightarrow> 'c list \<Rightarrow> 'd list" where
  "map3 f xs ys zs = map (\<lambda>(x, y, z). f x y z) (zip xs (zip ys zs))"

definition redistribute_forces :: "units \<Rightarrow> nat \<Rightarrow> nat \<Rightarrow> vec list \<Rightarrow> vec list" where
  "redistribute_forces u n me f_old =
     (let f_new = map (\<lambda>_. 0) f_old;
          f_new = set_slice3 n f_new
            (map3 (\<lambda>fn fme fc. smul (1 - NN u * MMeC u * CN) fn - smul (NN u * MCN u * CMe) fme
                                 + smul (NN u * MMeN u) fc)
               (slice3 n f_old) (slice3 me f_old) (slice3 1 f_old));
          f_new = set_slice3 me f_new
            (map3 (\<lambda>fme fn fc. smul (1 - NMe u * MCN u * CMe) fme - smul (NMe u * MMeC u * CN) fn
                                 + smul (NMe u * MMeN u) fc)
               (slice3 me f_old) (slice3 n f_old) (slice3 1 f_old))
      in f_new)"

section \<open>Point-charge embedding\<close>

text \<open>
  \<^verbatim>\<open>
  def calculate(self, qmcharges, qmpositions):
      energy = 0.0
      self.mmforces = np.zeros_like(self.mmpositions)
      qmforces = np.zeros_like(qmpositions)
      for C, R, F in zip(self.mmcharges, self.mmpositions, self.mmforces):
          d = qmpositions - R
          r2 = (d**2).sum(1)
          e = units.Hartree * units.Bohr * C * r2**-0.5 * qmcharges
          energy += e.sum()
          f = (e / r2)[:, np.newaxis] * d
          qmforces += f
          F -= f.sum(0)
      self.mmpositions = None
      return energy, qmforces
  \<close>
  Without positions, \<^verbatim>\<open>zip\<close> raises TypeError on None. In the loop, \<open>qmcharges\<close> must be
  as long as \<open>qmpositions\<close>, or of length one, for the arrays to broadcast; otherwise
  the first iteration raises ValueError, before \<open>mmpositions\<close> is cleared. \<open>F\<close> is a
  view of a row of \<open>mmforces\<close>; \<^verbatim>\<open>zip\<close> stops at the shorter of charges and positions,
  and the rows beyond stay zero.
\<close>

definition broadcast_charges :: "real list \<Rightarrow> nat \<Rightarrow> error + real list" where
  "broadcast_charges qmcharges k =
     (if length qmcharges = k then Inr qmcharges
      else if length qmcharges = 1 then Inr (replicate k (qmcharges ! 0))
      else Inl ValueError)"

definition pc_pair :: "units \<Rightarrow> real list \<Rightarrow> vec list \<Rightarrow> real \<Rightarrow> vec \<Rightarrow> real \<times> vec list" where
  "pc_pair u q qmpositions C R =
     (let d = map (\<lambda>p. p - R) qmpositions;
          r2 = map norm2 d;
          e = map2 (\<lambda>x qc. Hartree u * Bohr u * C * inverse (sqrt x) * qc) r2 q;
          f = map2 (\<lambda>a v. smul a v) (map2 (\<lambda>a b. a / b) e r2) d
      in (sum_list e, f))"

fun pc_loop ::
  "units \<Rightarrow> real list \<Rightarrow> vec list \<Rightarrow> (real \<times> vec) list \<Rightarrow> real \<times> vec list \<times> vec list
     \<Rightarrow> real \<times> vec list \<times> vec list" where
  "pc_loop u q qmpositions [] acc = acc"
| "pc_loop u q qmpositions ((C, R) # rest) (energy, qmforces, rows) =
     (let (e, f) = pc_pair u q qmpositions C R
      in pc_loop u q qmpositions rest
           (energy + e, map2 (+) qmforces f, rows @ [0 - sum_list f]))"

definition pc_calculate ::
  "units \<Rightarrow> PointChargePotential \<Rightarrow> real list \<Rightarrow> vec list
     \<Rightarrow> (error + real \<times> vec list) \<times> PointChargePotential" where
  "pc_calculate u self qmcharges qmpositions =
     (case mmpositions self of
        None \<Rightarrow> (Inl TypeError, self\<lparr> mmforces := ZeroObject \<rparr>)
      | Some mmpos \<Rightarrow>
          let zeros = map (\<lambda>_. 0) mmpos;
              pairs = zip (mmcharges self) mmpos
          in if pairs = [] then
               (Inr (0, map (\<lambda>_. 0) qmpositions),
                self\<lparr> mmforces := Forces zeros, mmpositions := None \<rparr>)
             else
               (case broadcast_charges qmcharges (length qmpositions) of
                  Inl err \<Rightarrow> (Inl err, self\<lparr> mmforces := Forces zeros \<rparr>)
                | Inr q \<Rightarrow>
                    let (energy, qmforces, rows) =
                          pc_loop u q qmpositions pairs (0, map (\<lambda>_. 0) qmpositions, [])
                    in (Inr (energy, qmforces),
                        self\<lparr> mmforces := Forces (rows @ drop (length rows) zeros),
                              mmpositions := None \<rparr>)))"

section \<open>Pairwise interaction engine\<close>

text \<open>
  \<^verbatim>\<open>positions.reshape((-1, 3, 3))\<close>: one block of three rows per molecule, ValueError
  when the number of atoms is not a multiple of three.
\<close>

fun chunks3 :: "'a list \<Rightarrow> 'a list list" where
  "chunks3 (x # y # z # xs) = [x, y, z] # chunks3 xs"
| "chunks3 xs = []"

definition reshape_molecules :: "vec list \<Rightarrow> error + vec list list" where
  "reshape_molecules ps = (if length ps mod 3 = 0 then Inr (chunks3 ps) else Inl ValueError)"

definition diagonal :: "vec \<times> vec \<times> vec \<Rightarrow> vec" where
  "diagonal c = (case c of (a, b, c) \<Rightarrow> Vec (vx a) (vy b) (vz c))"

definition np_diag :: "vec \<Rightarrow> vec \<times> vec \<times> vec" where
  "np_diag v = (Vec (vx v) 0 0, Vec 0 (vy v) 0, Vec 0 0 (vz v))"

text \<open>
  The four force updates made after each of the two interaction terms; \<open>F\<close> has one row
  of three vectors per later molecule, \<open>Fmm\<close> one vector per later molecule:
  \<^verbatim>\<open>
  self.forces[(m + 1) * 3:] += F.reshape((-1, 3))
  self.forces[m * 3 + j] -= F.sum(axis=0).sum(axis=0)
  self.forces[(m + 1) * 3 + 1::3] += Fmm
  self.forces[m * 3 + 1] -= Fmm.sum(0)
  \<close>
  Sums are exact here, so the order of summation does not matter.
\<close>

definition accumulate :: "nat \<Rightarrow> nat \<Rightarrow> vec list list \<Rightarrow> vec list \<Rightarrow> vec list \<Rightarrow> vec list" where
  "accumulate m j F Fmm forces =
     (let forces = take ((m + 1) * 3) forces @ map2 (+) (drop ((m + 1) * 3) forces) (concat F);
          forces = forces[m * 3 + j := forces ! (m * 3 + j) - sum_list (concat F)];
          forces = add_slice3 ((m + 1) * 3 + 1) forces Fmm;
          forces = forces[m * 3 + 1 := forces ! (m * 3 + 1) - sum_list Fmm]
      in forces)"

text \<open>
  The body of the loop over the site \<open>j\<close> of molecule \<open>m\<close> (lines 150 to 172). Arrays
  over the later molecules and their three sites are written by index: \<open>k\<close> runs over
  \<^verbatim>\<open>R[m + 1:]\<close>, \<open>i\<close> over the three sites.
\<close>

definition site_step ::
  "units \<Rightarrow> vec list list \<Rightarrow> real list \<Rightarrow> nat \<Rightarrow> vec list \<Rightarrow> vec list \<Rightarrow> real list
     \<Rightarrow> real list \<Rightarrow> real list \<Rightarrow> matrix \<Rightarrow> matrix \<Rightarrow> nat \<Rightarrow> real \<times> vec list \<Rightarrow> real \<times> vec list" where
  "site_step u R charges m shift Dmm d cutw dcut sigma_c epsilon_c j acc =
     (case acc of (energy, forces) \<Rightarrow>
      let later = drop (m + 1) R;
          K = length later;
          D = map (\<lambda>k. map (\<lambda>i. later ! k ! i - R ! m ! j + shift ! k) [0..<3]) [0..<K];
          r2 = map (map norm2) D;
          r = map (map sqrt) r2;
          e = map (\<lambda>k. map (\<lambda>i. charges ! j * charges ! i / r ! k ! i * k_c u) [0..<3]) [0..<K];
          energy = energy + sum_list (map (\<lambda>k. cutw ! k * sum_list (e ! k)) [0..<K]);
          F = map (\<lambda>k. map (\<lambda>i. smul (e ! k ! i / r2 ! k ! i * cutw ! k) (D ! k ! i)) [0..<3]) [0..<K];
          Fmm = map (\<lambda>k. smul (- (sum_list (e ! k) * dcut ! k / d ! k)) (Dmm ! k)) [0..<K];
          forces = accumulate m j F Fmm forces;
          c6 = map (\<lambda>k. map (\<lambda>i. ((sigma_c ! i ! j)\<^sup>2 / r2 ! k ! i) ^ 3) [0..<3]) [0..<K];
          c12 = map (map (\<lambda>x. x\<^sup>2)) c6;
          e = map (\<lambda>k. map (\<lambda>i. 4 * epsilon_c ! i ! j * (c12 ! k ! i - c6 ! k ! i)) [0..<3]) [0..<K];
          energy = energy + sum_list (map (\<lambda>k. cutw ! k * sum_list (e ! k)) [0..<K]);
          F = map (\<lambda>k. map (\<lambda>i. smul (24 * epsilon_c ! i ! j * (2 * c12 ! k ! i - c6 ! k ! i)
                                          / r2 ! k ! i * cutw ! k) (D ! k ! i)) [0..<3]) [0..<K];
          Fmm = map (\<lambda>k. smul (- (sum_list (e ! k) * dcut ! k / d ! k)) (Dmm ! k)) [0..<K];
          forces = accumulate m j F Fmm forces
      in (energy, forces))"

text \<open>The body of the loop over the molecule \<open>m\<close> (lines 134 to 172).\<close>

definition molecule_step ::
  "units \<Rightarrow> ACN \<Rightarrow> vec list list \<Rightarrow> vec \<Rightarrow> pbc \<Rightarrow> real list \<Rightarrow> nat \<Rightarrow> real \<times> vec list
     \<Rightarrow> error + real \<times> vec list" where
  "molecule_step u self R cl p charges m acc =
     (let Dmm = map (\<lambda>mol. mol ! 1 - R ! m ! 1) (drop (m + 1) R);
          shift = wrap Dmm cl p;
          Dmm = map2 (+) Dmm shift;
          d2 = map norm2 Dmm;
          d = map sqrt d2
      in case cutoff self d of
           Inl err \<Rightarrow> Inl err
         | Inr (cutw, dcut) \<Rightarrow>
             (case CombineLJ_lorenz_berthelot sigma (epsilon u) of
                Inl err \<Rightarrow> Inl err
              | Inr (sigma_c, epsilon_c) \<Rightarrow>
                  Inr (fold (site_step u R charges m shift Dmm d cutw dcut sigma_c epsilon_c)
                         [0..<3] acc)))"

fun for_each :: "('a \<Rightarrow> 's \<Rightarrow> error + 's) \<Rightarrow> 'a list \<Rightarrow> 's \<Rightarrow> error + 's" where
  "for_each f [] s = Inr s"
| "for_each f (x # xs) s = (case f x s of Inl err \<Rightarrow> Inl err | Inr s' \<Rightarrow> for_each f xs s')"

text \<open>
  \<^verbatim>\<open>ACN.calculate\<close> up to the end of the double loop (lines 105 to 172): the checks,
  then the energy and the forces accumulated in \<^verbatim>\<open>self.forces\<close>, with the offsets
  \<open>n\<close> and \<open>me\<close> and the charges of the first three atoms.
\<close>

record raw_result =
  raw_n :: nat
  raw_me :: nat
  raw_charges :: "real list"
  raw_nm :: nat
  raw_energy :: real
  raw_forces :: "vec list"

definition calculate_raw :: "units \<Rightarrow> ACN \<Rightarrow> snapshot \<Rightarrow> error + raw_result" where
  "calculate_raw u self s =
     (case reshape_molecules (map position (atoms s)) of
        Inl err \<Rightarrow> Inl err
      | Inr R \<Rightarrow>
          let Z = map number (atoms s);
              cl = diagonal (cell s);
              nm = length R
          in if cell s \<noteq> np_diag cl then Inl (AssertionError ''not orthorhombic'')
             else (case check_sequence Z of
                     Inl err \<Rightarrow> Inl err
                   | Inr (n, me) \<Rightarrow>
                       let charges = map charge (take 3 (atoms s))
                       in (case for_each (molecule_step u self R cl (pbc s) charges) [0..<nm - 1]
                                  (0, replicate (3 * nm) 0) of
                             Inl err \<Rightarrow> Inl err
                           | Inr (energy, forces) \<Rightarrow>
                               Inr \<lparr> raw_n = n, raw_me = me, raw_charges = charges, raw_nm = nm,
                                     raw_energy = energy, raw_forces = forces \<rparr>)))"

text \<open>
  The whole of \<^verbatim>\<open>ACN.calculate\<close>: the external field when one is attached (lines 174
  to 178), then the redistribution. The result is the pair of
  \<^verbatim>\<open>results['energy']\<close> and \<^verbatim>\<open>results['forces']\<close>, or the exception, together with the
  calculator as the call leaves it.
\<close>

definition calculate :: "units \<Rightarrow> ACN \<Rightarrow> snapshot \<Rightarrow> (error + real \<times> vec list) \<times> ACN" where
  "calculate u self s =
     (case calculate_raw u self s of
        Inl err \<Rightarrow> (Inl err, self)
      | Inr raw \<Rightarrow>
          (case pcpot self of
             None \<Rightarrow>
               (Inr (raw_energy raw,
                     redistribute_forces u (raw_n raw) (raw_me raw) (raw_forces raw)), self)
           | Some pc \<Rightarrow>
               (case pc_calculate u pc (concat (replicate (raw_nm raw) (raw_charges raw)))
                       (map position (atoms s)) of
                  (Inl err, pc') \<Rightarrow> (Inl err, self\<lparr> pcpot := Some pc' \<rparr>)
                | (Inr (e, f), pc') \<Rightarrow>
                    (Inr (raw_energy raw + e,
                          redistribute_forces u (raw_n raw) (raw_me raw)
                            (map2 (+) (raw_forces raw) f)),
                     self\<lparr> pcpot := Some pc' \<rparr>))))"

section \<open>Predicates used in the statements\<close>

text \<open>Flag \<open>i\<close> of the periodicity flags, as \<^verbatim>\<open>enumerate(pbc)\<close> pairs it with \<open>i\<close>.\<close>

definition periodic :: "pbc \<Rightarrow> nat \<Rightarrow> bool" where
  "periodic p i = snd (enumerate_pbc p ! i)"

text \<open>
  The remainder of floored division in exact arithmetic: what \<open>(d + L/2) mod L\<close> denotes
  in the formula of the minimum-image correction.
\<close>

definition floor_mod :: "real \<Rightarrow> real \<Rightarrow> real" where
  "floor_mod x L = x - L * of_int \<lfloor>x / L\<rfloor>"

text \<open>
  None of the float operations of \<^verbatim>\<open>(d + L / 2) % L - L / 2 - d\<close> rounds: each yields
  the exact value.
\<close>

definition unrounded :: "real \<Rightarrow> real \<Rightarrow> bool" where
  "unrounded d L \<longleftrightarrow>
     f64 (L / 2) = L / 2 \<and>
     f64 (d + L / 2) = d + L / 2 \<and>
     np_mod (d + L / 2) L = floor_mod (d + L / 2) L \<and>
     f64 (floor_mod (d + L / 2) L - L / 2) = floor_mod (d + L / 2) L - L / 2 \<and>
     f64 (floor_mod (d + L / 2) L - L / 2 - d) = floor_mod (d + L / 2) L - L / 2 - d"

text \<open>
  Every product of two entries is non-negative, so that every square root taken by the
  combining rule is one of a non-negative number (numpy gives \<^verbatim>\<open>nan\<close> otherwise).
\<close>

definition sqrt_defined :: "real list \<Rightarrow> bool" where
  "sqrt_defined ep = list_all (\<lambda>a. list_all (\<lambda>b. 0 \<le> a * b) ep) ep"

section \<open>Concrete inputs\<close>

text \<open>
  An atom and a cubic cell, for the snapshots at which the claims are evaluated, and a
  snapshot of one triplet with nitrogen, oxygen and carbon: its species at offset 1 is
  not carbon.
\<close>

definition mk_atom :: "nat \<Rightarrow> vec \<Rightarrow> real \<Rightarrow> atom" where
  "mk_atom z p q = \<lparr> number = z, position = p, charge = q \<rparr>"

definition cubic_cell :: "real \<Rightarrow> vec \<times> vec \<times> vec" where
  "cubic_cell L = (Vec L 0 0, Vec 0 L 0, Vec 0 0 L)"

definition NOC_snapshot :: snapshot where
  "NOC_snapshot = \<lparr> atoms = [mk_atom 7 (Vec 0 0 0) 0, mk_atom 8 (Vec 1 0 0) 0, mk_atom 6 (Vec 2 0 0) 0],
                     cell = cubic_cell 10, pbc = (False, False, False) \<rparr>"

text \<open>
  Two molecules in the order methyl, carbon, nitrogen, with the bond lengths of the
  module, the second displaced by 2.5 along the second axis; no charges have been
  assigned, so the initial charges are zero.
\<close>

definition two_molecules :: snapshot where
  "two_molecules =
     \<lparr> atoms = [mk_atom 6 (Vec 0 0 0) 0, mk_atom 6 (Vec (729 / 500) 0 0) 0,
                 mk_atom 7 (Vec (523 / 200) 0 0) 0,
                 mk_atom 6 (Vec 0 (5 / 2) 0) 0, mk_atom 6 (Vec (729 / 500) (5 / 2) 0) 0,
                 mk_atom 7 (Vec (523 / 200) (5 / 2) 0) 0],
       cell = cubic_cell 20, pbc = (False, False, False) \<rparr>"

text \<open>
  No site of a molecule coincides with a site of another molecule. At coinciding sites
  the program divides by a zero distance.
\<close>

fun separated :: "vec list list \<Rightarrow> bool" where
  "separated [] = True"
| "separated (m # rest) =
     (list_all (\<lambda>other. list_all (\<lambda>p. list_all (\<lambda>q. p \<noteq> q) other) m) rest \<and> separated rest)"

text \<open>
  The Lennard-Jones force on site \<open>i\<close> of a later molecule from site \<open>j\<close>, at
  displacement \<open>D\<close> and cutoff weight one, as lines 163 to 167 compute it:
  \<open>24 \<epsilon> (2 c\<^sub>1\<^sub>2 - c\<^sub>6) / r\<^sup>2\<close> times \<open>D\<close>, with \<open>c\<^sub>6 = (\<sigma>\<^sup>2 / r\<^sup>2)\<^sup>3\<close> and \<open>c\<^sub>1\<^sub>2 = c\<^sub>6\<^sup>2\<close>.
\<close>

definition lj_factor :: "real \<Rightarrow> real \<Rightarrow> real" where
  "lj_factor s2 r2 = (let c6 = (s2 / r2) ^ 3; c12 = c6\<^sup>2 in (2 * c12 - c6) / r2)"

definition lj_pair_force :: "matrix \<Rightarrow> matrix \<Rightarrow> nat \<Rightarrow> nat \<Rightarrow> vec \<Rightarrow> vec" where
  "lj_pair_force sigma_c epsilon_c i j D =
     smul (24 * epsilon_c ! i ! j * lj_factor ((sigma_c ! i ! j)\<^sup>2) (norm2 D)) D"

section \<open>Float64 rounding: properties\<close>

lemma pow2_powr: "pow2 e = 2 powr (of_int e)"
  by (simp add: pow2_def powr_real_of_int inverse_eq_divide)

lemma pow2_pos [simp]: "0 < pow2 e"
  by (simp add: pow2_powr)

lemma floor_log2:
  assumes "pow2 n \<le> x" and "x < pow2 (n + 1)"
  shows "\<lfloor>log 2 x\<rfloor> = n"
proof -
  have x: "0 < x" using assms(1) pow2_pos[of n] by linarith
  have "of_int n \<le> log 2 x" using assms(1) x by (simp add: le_log_iff pow2_powr)
  moreover have "log 2 x < of_int n + 1" using assms(2) x by (simp add: log_less_iff pow2_powr)
  ultimately show ?thesis by linarith
qed

lemma f64_eval:
  assumes "pow2 n \<le> \<bar>x\<bar>" and "\<bar>x\<bar> < pow2 (n + 1)"
  shows "f64 x = of_int (round_even (x / pow2 (max n (- 1022) - 52))) * pow2 (max n (- 1022) - 52)"
proof -
  have "0 < \<bar>x\<bar>" using assms(1) pow2_pos[of n] by linarith
  then have "x \<noteq> 0" by simp
  then show ?thesis by (simp add: f64_def floor_log2[OF assms] Let_def)
qed

lemma f64_0 [simp]: "f64 0 = 0"
  by (simp add: f64_def)

lemma f64_small:
  "f64 1 = 1" "f64 2 = 2" "f64 3 = 3" "f64 4 = 4" "f64 5 = 5"
  "f64 (- 1) = - 1" "f64 (- 2) = - 2" "f64 (- 4) = - 4"
  using f64_eval[of 0 1] f64_eval[of 1 2] f64_eval[of 1 3] f64_eval[of 2 4] f64_eval[of 2 5]
    f64_eval[of 0 "- 1"] f64_eval[of 1 "- 2"] f64_eval[of 2 "- 4"]
  by (simp_all add: pow2_def round_even_def)

lemma round_even_error: "\<bar>of_int (round_even y) - y\<bar> \<le> 1 / 2"
  unfolding round_even_def Let_def by (auto; linarith)

lemma pow2_diff: "pow2 (e - k) = pow2 e / pow2 k"
  by (simp add: pow2_powr powr_diff)

lemma pow2_floor_log: "0 < x \<Longrightarrow> pow2 \<lfloor>log 2 x\<rfloor> \<le> x"
proof -
  assume x: "0 < x"
  have "of_int \<lfloor>log 2 x\<rfloor> \<le> log 2 x" by simp
  then have "2 powr (of_int \<lfloor>log 2 x\<rfloor>) \<le> 2 powr (log 2 x)" by (simp only: powr_le_cancel_iff) 
  then show ?thesis using x by (simp add: pow2_powr)
qed

lemma f64_error: "\<bar>f64 x - x\<bar> \<le> \<bar>x\<bar> / 2 ^ 53 + 1 / 2 ^ 1075"
proof (cases "x = 0")
  case True then show ?thesis by simp
next
  case False
  define e where "e = max \<lfloor>log 2 \<bar>x\<bar>\<rfloor> (- 1022)"
  define u where "u = pow2 (e - 52)"
  have u: "0 < u" by (simp add: u_def)
  have fx: "f64 x = of_int (round_even (x / u)) * u"
    using False by (simp add: f64_def Let_def e_def u_def)
  have "f64 x - x = (of_int (round_even (x / u)) - x / u) * u"
    using u by (simp add: fx algebra_simps)
  then have "\<bar>f64 x - x\<bar> = \<bar>of_int (round_even (x / u)) - x / u\<bar> * u"
    using u by (simp add: abs_mult)
  also have "\<dots> \<le> (1 / 2) * u"
    using round_even_error[of "x / u"] u by (intro mult_right_mono) simp_all
  finally have b: "\<bar>f64 x - x\<bar> \<le> u / 2" by simp
  have "u \<le> \<bar>x\<bar> / 2 ^ 52 + 1 / 2 ^ 1074"
  proof (cases "- 1022 \<le> \<lfloor>log 2 \<bar>x\<bar>\<rfloor>")
    case True
    then have "e = \<lfloor>log 2 \<bar>x\<bar>\<rfloor>" by (simp add: e_def)
    then have "u = pow2 \<lfloor>log 2 \<bar>x\<bar>\<rfloor> / 2 ^ 52" by (simp add: u_def pow2_diff) (simp add: pow2_def)
    moreover have "pow2 \<lfloor>log 2 \<bar>x\<bar>\<rfloor> \<le> \<bar>x\<bar>" using False by (intro pow2_floor_log) simp
    ultimately have "u \<le> \<bar>x\<bar> / 2 ^ 52" by (simp add: divide_right_mono)
    then show ?thesis by (simp add: add_increasing2)
  next
    case False
    then have "e = - 1022" by (simp add: e_def)
    then have "u = 1 / 2 ^ 1074" by (simp add: u_def pow2_def)
    then show ?thesis by simp
  qed
  then have "u / 2 \<le> \<bar>x\<bar> / 2 ^ 53 + 1 / 2 ^ 1075" by simp
  with b show ?thesis by linarith
qed


lemma fmod_bounds:
  assumes "0 < b"
  shows "\<bar>fmod a b\<bar> < b"
proof -
  define q where "q = a / b"
  define t :: int where "t = (if 0 \<le> q then \<lfloor>q\<rfloor> else \<lceil>q\<rceil>)"
  have "\<bar>q - of_int t\<bar> < 1" unfolding t_def by (auto; linarith)
  then have "b * \<bar>q - of_int t\<bar> < b * 1" using assms by (intro mult_strict_left_mono) simp_all
  moreover have "fmod a b = b * (q - of_int t)"
    using assms by (simp add: fmod_def q_def t_def algebra_simps)
  ultimately show ?thesis using assms by (simp add: abs_mult)
qed

lemma np_mod_range:
  assumes "0 < L"
  shows "- (L / 2 ^ 53 + 1 / 2 ^ 1075) \<le> np_mod x L"
    and "np_mod x L \<le> L + (L / 2 ^ 53 + 1 / 2 ^ 1075)"
proof -
  define r where "r = fmod x L"
  define E :: real where "E = L / 2 ^ 53 + 1 / 2 ^ 1075"
  define K :: real where "K = \<bar>r + L\<bar> / 2 ^ 53 + 1 / 2 ^ 1075"
  have r: "\<bar>r\<bar> < L" unfolding r_def by (rule fmod_bounds[OF assms])
  have m: "np_mod x L = (if r < 0 then f64 (r + L) else r)"
    using assms by (auto simp add: np_mod_def r_def Let_def)
  have e: "\<bar>f64 (r + L) - (r + L)\<bar> \<le> K" unfolding K_def by (rule f64_error)
  have p: "0 \<le> E" using assms by (simp add: E_def)
  have "- E \<le> np_mod x L \<and> np_mod x L \<le> L + E"
  proof (cases "r < 0")
    case True
    then have rl: "\<bar>r + L\<bar> \<le> L" "0 \<le> r + L" "r + L \<le> L" using r by linarith+
    then have "\<bar>r + L\<bar> / 2 ^ 53 \<le> L / 2 ^ 53" by (simp add: divide_right_mono)
    then have "K \<le> E" unfolding K_def E_def by (rule add_right_mono)
    moreover have "np_mod x L = f64 (r + L)" using m True by simp
    ultimately show ?thesis using e rl by linarith
  next
    case False
    then have "np_mod x L = r" using m by simp
    then show ?thesis using False p r by linarith
  qed
  then show "- (L / 2 ^ 53 + 1 / 2 ^ 1075) \<le> np_mod x L"
    and "np_mod x L \<le> L + (L / 2 ^ 53 + 1 / 2 ^ 1075)"
    unfolding E_def by blast+
qed

lemma rounding_chain:
  fixes L d h m w c eps eta :: real
  assumes eps: "0 \<le> eps" "eps \<le> 1 / 100" and eta: "0 \<le> eta" and L: "0 < L"
    and h: "\<bar>h - L / 2\<bar> \<le> eps * (L / 2) + eta"
    and m: "- (eps * L + eta) \<le> m" "m \<le> L + (eps * L + eta)"
    and w: "\<bar>w - (m - h)\<bar> \<le> eps * \<bar>m - h\<bar> + eta"
    and c: "\<bar>c - (w - d)\<bar> \<le> eps * \<bar>w - d\<bar> + eta"
  shows "\<bar>d + c\<bar> \<le> L / 2 + 4 * eps * (L + \<bar>d\<bar>) + 8 * eta"
proof -
  define A where "A = eps * L"
  have A: "0 \<le> A" using eps L by (simp add: A_def)
  have b1: "\<bar>m - h\<bar> \<le> L / 2 + 3 / 2 * A + 2 * eta"
    using h m unfolding A_def by linarith
  have "eps * \<bar>m - h\<bar> \<le> eps * (L / 2 + 3 / 2 * A + 2 * eta)"
    using b1 eps(1) by (rule mult_left_mono)
  also have "\<dots> = A / 2 + 3 / 2 * (eps * A) + 2 * (eps * eta)"
    by (simp add: A_def algebra_simps)
  finally have b2: "eps * \<bar>m - h\<bar> \<le> A / 2 + 3 / 2 * (eps * A) + 2 * (eps * eta)" .
  have ea: "eps * A \<le> 1 / 100 * A" using eps(2) A by (rule mult_right_mono)
  have ee: "eps * eta \<le> 1 / 100 * eta" using eps(2) eta by (rule mult_right_mono)
  have ee0: "0 \<le> eps * eta" using eps(1) eta by simp
  have ea0: "0 \<le> eps * A" using eps(1) A by simp
  have W: "\<bar>w\<bar> \<le> L / 2 + 203 / 100 * A + 302 / 100 * eta + eta"
    using w b1 b2 ea ee A eta by linarith
  have "eps * \<bar>w\<bar> \<le> eps * (L / 2 + 203 / 100 * A + 302 / 100 * eta + eta)"
    using W eps(1) by (rule mult_left_mono)
  also have "\<dots> = A / 2 + 203 / 100 * (eps * A) + 402 / 100 * (eps * eta)"
    by (simp add: A_def algebra_simps)
  finally have b3: "eps * \<bar>w\<bar> \<le> A / 2 + 203 / 100 * (eps * A) + 402 / 100 * (eps * eta)" .
  have "\<bar>w - d\<bar> \<le> \<bar>w\<bar> + \<bar>d\<bar>" by simp
  then have "eps * \<bar>w - d\<bar> \<le> eps * (\<bar>w\<bar> + \<bar>d\<bar>)" using eps(1) by (rule mult_left_mono)
  then have b4: "eps * \<bar>w - d\<bar> \<le> eps * \<bar>w\<bar> + eps * \<bar>d\<bar>" by (simp add: algebra_simps)
  have d0: "0 \<le> eps * \<bar>d\<bar>" using eps(1) by simp
  have "\<bar>d + c\<bar> \<le> \<bar>w\<bar> + eps * \<bar>w - d\<bar> + eta" using c by linarith
  then have "\<bar>d + c\<bar> \<le> L / 2 + 4 * A + 4 * (eps * \<bar>d\<bar>) + 8 * eta"
    using W b3 b4 ea ee A eta d0 ea0 ee0 by linarith
  then show ?thesis by (simp add: A_def algebra_simps)
qed

section \<open>Minimum-image wrap: properties\<close>

lemma unrounded_shift:
  "unrounded d L \<Longrightarrow> wrap_shift d L = floor_mod (d + L / 2) L - L / 2 - d"
  unfolding unrounded_def wrap_shift_def by (elim conjE) (simp only:)

lemma floor_mod_bounds:
  assumes "0 < L"
  shows "0 \<le> floor_mod x L" and "floor_mod x L < L"
proof -
  have a: "of_int \<lfloor>x / L\<rfloor> \<le> x / L" by simp
  have b: "x / L < of_int \<lfloor>x / L\<rfloor> + 1" by linarith
  have "L * of_int \<lfloor>x / L\<rfloor> \<le> L * (x / L)"
    using a assms by (intro mult_left_mono) simp_all
  then have "L * of_int \<lfloor>x / L\<rfloor> \<le> x" using assms by simp
  then show "0 \<le> floor_mod x L" by (simp add: floor_mod_def)
  have "L * (x / L) < L * (of_int \<lfloor>x / L\<rfloor> + 1)"
    using b assms by (intro mult_strict_left_mono) simp_all
  then have "x < L * (of_int \<lfloor>x / L\<rfloor> + 1)" using assms by simp
  then show "floor_mod x L < L" by (simp add: floor_mod_def algebra_simps)
qed

lemma wrapped_bound:
  assumes "0 < L"
  shows "\<bar>d + (floor_mod (d + L / 2) L - L / 2 - d)\<bar> \<le> L / 2"
proof -
  have "0 \<le> floor_mod (d + L / 2) L" and "floor_mod (d + L / 2) L < L"
    using floor_mod_bounds[OF assms] by blast+
  then have "\<bar>floor_mod (d + L / 2) L - L / 2\<bar> \<le> L / 2" by linarith
  then show ?thesis by simp
qed

lemma wrap_shift_bound:
  assumes "0 < L"
  shows "\<bar>d + wrap_shift d L\<bar> \<le> L / 2 + (L + \<bar>d\<bar>) / 2 ^ 51 + 1 / 2 ^ 1072"
proof -
  define h where "h = f64 (L / 2)"
  define m where "m = np_mod (f64 (d + h)) L"
  define w where "w = f64 (m - h)"
  define c where "c = f64 (w - d)"
  define eps :: real where "eps = 1 / 2 ^ 53"
  define eta :: real where "eta = 1 / 2 ^ 1075"
  have c_eq: "wrap_shift d L = c" by (simp add: wrap_shift_def c_def w_def m_def h_def)
  have e1: "0 \<le> eps" "eps \<le> 1 / 100" "0 \<le> eta" by (simp_all add: eps_def eta_def)
  have fe: "\<bar>f64 x - x\<bar> \<le> eps * \<bar>x\<bar> + eta" for x
    using f64_error[of x] by (simp add: eps_def eta_def)
  have hh: "\<bar>h - L / 2\<bar> \<le> eps * (L / 2) + eta"
    using fe[of "L / 2"] assms by (simp add: h_def)
  have mm: "- (eps * L + eta) \<le> m" "m \<le> L + (eps * L + eta)"
    using np_mod_range[OF assms, of "f64 (d + h)"] by (simp_all add: m_def eps_def eta_def)
  have ww: "\<bar>w - (m - h)\<bar> \<le> eps * \<bar>m - h\<bar> + eta" unfolding w_def by (rule fe)
  have cc: "\<bar>c - (w - d)\<bar> \<le> eps * \<bar>w - d\<bar> + eta" unfolding c_def by (rule fe)
  have "\<bar>d + c\<bar> \<le> L / 2 + 4 * eps * (L + \<bar>d\<bar>) + 8 * eta"
    by (rule rounding_chain[OF e1 assms hh mm ww cc])
  moreover have "4 * eps = 1 / 2 ^ 51" by (simp add: eps_def)
  moreover have "8 * eta = 1 / 2 ^ 1072" by (simp add: eta_def)
  ultimately show ?thesis unfolding c_eq by simp
qed

lemma map2_map_same: "map2 f xs (map g xs) = map (\<lambda>x. f x (g x)) xs"
  by (induction xs) simp_all

lemma wrap_map:
  "wrap D cl (a, b, c) =
     map (\<lambda>d. Vec (if a then wrap_shift (vx d) (vx cl) else 0)
                   (if b then wrap_shift (vy d) (vy cl) else 0)
                   (if c then wrap_shift (vz d) (vz cl) else 0)) D"
  by (simp add: wrap_def enumerate_pbc_def wrap_axis_def map2_map_same coord_def set_coord_def
      zero_vec_def Let_def)

lemma length_wrap: "length (wrap D cl p) = length D"
  by (cases p) (simp add: wrap_map)

lemma coord_wrap:
  assumes "k < length D" and "i < 3"
  shows "coord (wrap D cl p ! k) i
           = (if periodic p i then wrap_shift (coord (D ! k) i) (coord cl i) else 0)"
proof -
  obtain a b c where p: "p = (a, b, c)" by (cases p) auto
  from assms(2) consider "i = 0" | "i = 1" | "i = 2" by linarith
  then show ?thesis
    using assms(1) by cases (simp_all add: p wrap_map periodic_def enumerate_pbc_def coord_def)
qed

lemma unrounded_3_4: "unrounded 3 4" "unrounded (- 3) 4"
  by (simp_all add: unrounded_def f64_small np_mod_def fmod_def floor_mod_def Let_def ceiling_def)

lemma unrounded_1_2: "unrounded 1 2" "unrounded (- 1) 2"
  by (simp_all add: unrounded_def f64_small np_mod_def fmod_def floor_mod_def Let_def ceiling_def)

lemma wrap_shift_half: "wrap_shift 1 2 = - 2" "wrap_shift (- 1) 2 = 0"
  by (simp_all add: wrap_shift_def f64_small np_mod_def fmod_def Let_def)

lemma wrap_shift_rounded:
  "wrap_shift (5404319552844595 / 36028797018963968) (3602879701896397 / 36028797018963968)
     = - (3602879701896397 / 18014398509481984)"
proof -
  have h: "f64 (3602879701896397 / 36028797018963968 / 2) = 3602879701896397 / 72057594037927936"
    using f64_eval[of "- 5" "3602879701896397 / 72057594037927936"]
    by (simp add: pow2_def round_even_def Let_def)
  have x: "f64 (5404319552844595 / 36028797018963968 + 3602879701896397 / 72057594037927936)
             = 3602879701896397 / 18014398509481984"
    using f64_eval[of "- 3" "14411518807585587 / 72057594037927936"]
    by (simp add: pow2_def round_even_def Let_def)
  have m: "np_mod (3602879701896397 / 18014398509481984) (3602879701896397 / 36028797018963968) = 0"
    by (simp add: np_mod_def fmod_def Let_def)
  have w: "f64 (0 - 3602879701896397 / 72057594037927936) = - (3602879701896397 / 72057594037927936)"
    using f64_eval[of "- 5" "- (3602879701896397 / 72057594037927936)"]
    by (simp add: pow2_def round_even_def Let_def)
  have c: "f64 (- (3602879701896397 / 72057594037927936) - 5404319552844595 / 36028797018963968)
             = - (3602879701896397 / 18014398509481984)"
    using f64_eval[of "- 3" "- (14411518807585587 / 72057594037927936)"]
    by (simp add: pow2_def round_even_def Let_def)
  show ?thesis by (simp only: wrap_shift_def h x m w c)
qed

lemma wrap_shift_rounded_neg:
  "wrap_shift (- (5404319552844595 / 36028797018963968)) (3602879701896397 / 36028797018963968)
     = 3602879701896397 / 36028797018963968"
proof -
  have h: "f64 (3602879701896397 / 36028797018963968 / 2) = 3602879701896397 / 72057594037927936"
    using f64_eval[of "- 5" "3602879701896397 / 72057594037927936"]
    by (simp add: pow2_def round_even_def Let_def)
  have x: "f64 (- (5404319552844595 / 36028797018963968) + 3602879701896397 / 72057594037927936)
             = - (7205759403792793 / 72057594037927936)"
    using f64_eval[of "- 4" "- (7205759403792793 / 72057594037927936)"]
    by (simp add: pow2_def round_even_def Let_def)
  have s: "f64 (1 / 72057594037927936) = 1 / 72057594037927936"
    using f64_eval[of "- 56" "1 / 72057594037927936"]
    by (simp add: pow2_def round_even_def Let_def)
  have m: "np_mod (- (7205759403792793 / 72057594037927936)) (3602879701896397 / 36028797018963968)
             = 1 / 72057594037927936"
    using s by (simp add: np_mod_def fmod_def Let_def ceiling_def)
  have w: "f64 (1 / 72057594037927936 - 3602879701896397 / 72057594037927936)
             = - (900719925474099 / 18014398509481984)"
    using f64_eval[of "- 5" "- (900719925474099 / 18014398509481984)"]
    by (simp add: pow2_def round_even_def Let_def)
  have c: "f64 (- (900719925474099 / 18014398509481984) - - (5404319552844595 / 36028797018963968))
             = 3602879701896397 / 36028797018963968"
    using f64_eval[of "- 4" "3602879701896397 / 36028797018963968"]
    by (simp add: pow2_def round_even_def Let_def)
  show ?thesis by (simp only: wrap_shift_def h x m w c)
qed

lemma floor_mod_reflect:
  assumes "0 < L" "floor_mod x L \<noteq> 0"
  shows "floor_mod (L - x) L = L - floor_mod x L"
proof -
  have nz: "x / L \<noteq> of_int \<lfloor>x / L\<rfloor>"
  proof
    assume "x / L = of_int \<lfloor>x / L\<rfloor>"
    then have "L * (x / L) = L * of_int \<lfloor>x / L\<rfloor>" by simp
    then have "x = L * of_int \<lfloor>x / L\<rfloor>" using assms by simp
    with assms show False by (simp add: floor_mod_def)
  qed
  have "(L - x) / L = 1 - x / L" using assms by (simp add: field_simps)
  moreover have "\<lfloor>1 - x / L\<rfloor> = - \<lfloor>x / L\<rfloor>"
  proof (rule floor_unique)
    have "of_int \<lfloor>x / L\<rfloor> < x / L" using nz of_int_floor_le[of "x / L"] by linarith
    then show "of_int (- \<lfloor>x / L\<rfloor>) \<le> 1 - x / L" by linarith
    show "1 - x / L < of_int (- \<lfloor>x / L\<rfloor>) + 1" using \<open>of_int \<lfloor>x / L\<rfloor> < x / L\<close> by simp
  qed
  ultimately have f: "\<lfloor>(L - x) / L\<rfloor> = - \<lfloor>x / L\<rfloor>" by simp
  show ?thesis unfolding floor_mod_def f by (simp add: algebra_simps)
qed

lemma floor_mod_multiple:
  assumes "0 < L" "floor_mod x L = 0"
  shows "floor_mod (L - x) L = 0"
proof -
  have "x = L * of_int \<lfloor>x / L\<rfloor>" using assms by (simp add: floor_mod_def)
  then have xl: "x / L = of_int \<lfloor>x / L\<rfloor>" using assms by (metis nonzero_mult_div_cancel_left less_irrefl)
  have "(L - x) / L = 1 - x / L" using assms by (simp add: field_simps)
  also have "\<dots> = of_int (1 - \<lfloor>x / L\<rfloor>)" using xl by simp
  finally have e: "(L - x) / L = of_int (1 - \<lfloor>x / L\<rfloor>)" .
  have f: "\<lfloor>(L - x) / L\<rfloor> = 1 - \<lfloor>x / L\<rfloor>" unfolding e by (rule floor_of_int)
  have "L - x - L * of_int (1 - \<lfloor>x / L\<rfloor>) = L * of_int \<lfloor>x / L\<rfloor> - x"
    by (simp add: algebra_simps)
  also have "\<dots> = 0" using \<open>x = L * of_int \<lfloor>x / L\<rfloor>\<close> by simp
  finally show ?thesis unfolding floor_mod_def f .
qed

lemma corr_neg:
  assumes "0 < L"
  shows "(floor_mod (- d + L / 2) L - L / 2 - (- d) = - (floor_mod (d + L / 2) L - L / 2 - d))
          \<longleftrightarrow> floor_mod (d + L / 2) L \<noteq> 0"
proof -
  have e: "- d + L / 2 = L - (d + L / 2)" by simp
  show ?thesis
  proof (cases "floor_mod (d + L / 2) L = 0")
    case True
    from floor_mod_multiple[OF assms True] show ?thesis using True assms unfolding e by simp
  next
    case False
    from floor_mod_reflect[OF assms False] show ?thesis using False unfolding e by simp
  qed
qed

lemma coord_uminus: "coord (- v) i = - coord v i"
  by (cases v) (simp add: coord_def uminus_vec_def)

text \<open>
  Claim C5, as stated: along each periodic axis the wrapped value \<open>d + correction\<close> has
  magnitude at most \<open>L/2\<close>, and the correction equals \<open>((d + L/2) mod L) - L/2 - d\<close>.
  The float64 code does not meet it. With \<open>d\<close> the float nearest to \<open>0.15\<close> and \<open>L\<close> the
  float nearest to \<open>0.1\<close>, \<open>d + L/2\<close> lies halfway between two floats and is rounded up
  to \<open>2 L\<close>, the remainder is \<open>0\<close>, and the correction is \<open>-2 L\<close> where the formula gives
  \<open>-L\<close>; the wrapped value is \<open>d - 2 L\<close>, whose magnitude exceeds \<open>L/2\<close> by \<open>2\<^sup>-\<^sup>5\<^sup>6\<close>.
\<close>

theorem wrap_minimum_image_counterexample:
  "\<bar>5404319552844595 / 36028797018963968
      + coord (wrap [Vec (5404319552844595 / 36028797018963968) 0 0]
                 (Vec (3602879701896397 / 36028797018963968) 1 1) (True, False, False) ! 0) 0\<bar>
     > 3602879701896397 / 36028797018963968 / 2 \<and>
   coord (wrap [Vec (5404319552844595 / 36028797018963968) 0 0]
            (Vec (3602879701896397 / 36028797018963968) 1 1) (True, False, False) ! 0) 0
     \<noteq> floor_mod (5404319552844595 / 36028797018963968 + 3602879701896397 / 36028797018963968 / 2)
          (3602879701896397 / 36028797018963968)
         - 3602879701896397 / 36028797018963968 / 2 - 5404319552844595 / 36028797018963968"
  by (simp add: wrap_map coord_def wrap_shift_rounded floor_mod_def)

text \<open>
  Claim C5, amended. \<open>wrap\<close> returns one correction per displacement, for arrays of every
  length, the empty one included. For every displacement and axis: along a non-periodic
  axis the correction is \<open>0\<close>; along a periodic axis it is the float64 value of
  \<^verbatim>\<open>(d + L / 2) % L - L / 2 - d\<close>; where \<open>L > 0\<close> and none of the operations rounds, that
  is \<open>((d + L/2) mod L) - L/2 - d\<close> and the wrapped value \<open>d + correction\<close> has magnitude
  at most \<open>L/2\<close>; and where \<open>L > 0\<close>, for magnitudes up to \<open>2\<^sup>1\<^sup>0\<^sup>0\<^sup>0\<close> (no overflow), the
  wrapped value has magnitude at most \<open>L/2\<close> up to rounding:
  \<open>L/2 + (L + \<bar>d\<bar>) / 2\<^sup>5\<^sup>1 + 2\<^sup>-\<^sup>1\<^sup>0\<^sup>7\<^sup>2\<close>. \<open>wrap\<close> is a function of its arguments, which
  it does not change.
\<close>

theorem wrap_minimum_image:
  "length (wrap D cl p) = length D \<and>
   (\<forall>k<length D. \<forall>i<3.
      (\<not> periodic p i \<longrightarrow> coord (wrap D cl p ! k) i = 0) \<and>
      (periodic p i \<longrightarrow>
         coord (wrap D cl p ! k) i = wrap_shift (coord (D ! k) i) (coord cl i)) \<and>
      (periodic p i \<and> 0 < coord cl i \<and> unrounded (coord (D ! k) i) (coord cl i) \<longrightarrow>
         coord (wrap D cl p ! k) i
           = floor_mod (coord (D ! k) i + coord cl i / 2) (coord cl i) - coord cl i / 2 - coord (D ! k) i
         \<and> \<bar>coord (D ! k) i + coord (wrap D cl p ! k) i\<bar> \<le> coord cl i / 2) \<and>
      (periodic p i \<and> 0 < coord cl i \<and> coord cl i \<le> 2 ^ 1000 \<and> \<bar>coord (D ! k) i\<bar> \<le> 2 ^ 1000 \<longrightarrow>
         \<bar>coord (D ! k) i + coord (wrap D cl p ! k) i\<bar>
           \<le> coord cl i / 2 + (coord cl i + \<bar>coord (D ! k) i\<bar>) / 2 ^ 51 + 1 / 2 ^ 1072))"
proof (intro conjI allI impI)
  show "length (wrap D cl p) = length D" by (rule length_wrap)
next
  fix k i assume "k < length D" "i < 3" "\<not> periodic p i"
  then show "coord (wrap D cl p ! k) i = 0" by (simp add: coord_wrap)
next
  fix k i assume "k < length D" "i < 3" "periodic p i"
  then show "coord (wrap D cl p ! k) i = wrap_shift (coord (D ! k) i) (coord cl i)"
    by (simp add: coord_wrap)
next
  fix k i
  assume ki: "k < length D" "i < 3"
    and h: "periodic p i \<and> 0 < coord cl i \<and> unrounded (coord (D ! k) i) (coord cl i)"
  have c: "coord (wrap D cl p ! k) i = wrap_shift (coord (D ! k) i) (coord cl i)"
    using ki h by (simp add: coord_wrap)
  show "coord (wrap D cl p ! k) i
          = floor_mod (coord (D ! k) i + coord cl i / 2) (coord cl i) - coord cl i / 2 - coord (D ! k) i"
    unfolding c using h by (intro unrounded_shift) blast
  then show "\<bar>coord (D ! k) i + coord (wrap D cl p ! k) i\<bar> \<le> coord cl i / 2"
    using wrapped_bound[of "coord cl i" "coord (D ! k) i"] h by (simp only:)
next
  fix k i
  assume ki: "k < length D" "i < 3"
    and h: "periodic p i \<and> 0 < coord cl i \<and> coord cl i \<le> 2 ^ 1000 \<and> \<bar>coord (D ! k) i\<bar> \<le> 2 ^ 1000"
  have c: "coord (wrap D cl p ! k) i = wrap_shift (coord (D ! k) i) (coord cl i)"
    using ki h by (simp add: coord_wrap)
  from h have "0 < coord cl i" by blast
  then show "\<bar>coord (D ! k) i + coord (wrap D cl p ! k) i\<bar>
           \<le> coord cl i / 2 + (coord cl i + \<bar>coord (D ! k) i\<bar>) / 2 ^ 51 + 1 / 2 ^ 1072"
    unfolding c by (rule wrap_shift_bound)
qed

theorem wrap_minimum_image_witness:
  "length (wrap [Vec 3 (- 7) (1 / 2)] (Vec 4 4 4) (True, True, False)) = 1 \<and>
   coord (wrap [Vec 3 (- 7) (1 / 2)] (Vec 4 4 4) (True, True, False) ! 0) 0 = - 4 \<and>
   \<bar>3 + coord (wrap [Vec 3 (- 7) (1 / 2)] (Vec 4 4 4) (True, True, False) ! 0) 0\<bar> \<le> 2 \<and>
   coord (wrap [Vec 3 (- 7) (1 / 2)] (Vec 4 4 4) (True, True, False) ! 0) 2 = 0"
proof -
  note t = wrap_minimum_image[of "[Vec 3 (- 7) (1 / 2)]" "Vec 4 4 4" "(True, True, False)"]
  have a: "periodic (True, True, False) 0 \<and> 0 < coord (Vec 4 4 4) 0 \<and>
           unrounded (coord ([Vec 3 (- 7) (1 / 2)] ! 0) 0) (coord (Vec 4 4 4) 0)"
    by (simp add: periodic_def enumerate_pbc_def coord_def unrounded_3_4)
  have b: "\<not> periodic (True, True, False) 2"
    by (simp add: periodic_def enumerate_pbc_def)
  have k: "(0::nat) < length [Vec 3 (- 7) (1 / 2)]" by simp
  from t have l: "length (wrap [Vec 3 (- 7) (1 / 2)] (Vec 4 4 4) (True, True, False)) = 1" by simp
  from t k a have
    "coord (wrap [Vec 3 (- 7) (1 / 2)] (Vec 4 4 4) (True, True, False) ! 0) 0
       = floor_mod (coord ([Vec 3 (- 7) (1 / 2)] ! 0) 0 + coord (Vec 4 4 4) 0 / 2) (coord (Vec 4 4 4) 0)
           - coord (Vec 4 4 4) 0 / 2 - coord ([Vec 3 (- 7) (1 / 2)] ! 0) 0"
    and "\<bar>coord ([Vec 3 (- 7) (1 / 2)] ! 0) 0
           + coord (wrap [Vec 3 (- 7) (1 / 2)] (Vec 4 4 4) (True, True, False) ! 0) 0\<bar>
         \<le> coord (Vec 4 4 4) 0 / 2"
    by (metis zero_less_numeral)+
  then have c: "coord (wrap [Vec 3 (- 7) (1 / 2)] (Vec 4 4 4) (True, True, False) ! 0) 0 = - 4"
    and d: "\<bar>3 + coord (wrap [Vec 3 (- 7) (1 / 2)] (Vec 4 4 4) (True, True, False) ! 0) 0\<bar> \<le> 2"
    by (simp_all add: coord_def floor_mod_def)
  from t k b have e: "coord (wrap [Vec 3 (- 7) (1 / 2)] (Vec 4 4 4) (True, True, False) ! 0) 2 = 0"
    by (metis numeral_2_eq_2 lessI numeral_3_eq_3)
  from l c d e show ?thesis by blast
qed

text \<open>
  Claim C6, as stated: the corrections for \<open>D\<close> and \<open>-D\<close> are negatives of each other
  along every periodic axis, half-cell displacements included. It fails at \<open>d = L/2\<close>,
  where no operation rounds: with \<open>L = 2\<close> the correction for \<open>d = 1\<close> is \<open>-2\<close> and the
  one for \<open>d = -1\<close> is \<open>0\<close> (both displacements are wrapped to \<open>-1\<close>).
\<close>

theorem wrap_negation_counterexample:
  "coord (wrap (map uminus [Vec 1 0 0]) (Vec 2 2 2) (True, False, False) ! 0) 0
     \<noteq> - coord (wrap [Vec 1 0 0] (Vec 2 2 2) (True, False, False) ! 0) 0"
  by (simp add: wrap_map coord_def uminus_vec_def wrap_shift_half)

text \<open>
  Rounding breaks the negation as well, away from the half cell: with \<open>d\<close> the float
  nearest to \<open>0.15\<close> and \<open>L\<close> the float nearest to \<open>0.1\<close>, the correction for \<open>d\<close> is
  \<open>-2 L\<close> and the one for \<open>-d\<close> is \<open>L\<close>.
\<close>

lemma wrap_negation_rounded:
  "coord (wrap (map uminus [Vec (5404319552844595 / 36028797018963968) 0 0])
            (Vec (3602879701896397 / 36028797018963968) 1 1) (True, False, False) ! 0) 0
     = 3602879701896397 / 36028797018963968 \<and>
   coord (wrap [Vec (5404319552844595 / 36028797018963968) 0 0]
            (Vec (3602879701896397 / 36028797018963968) 1 1) (True, False, False) ! 0) 0
     = - (2 * (3602879701896397 / 36028797018963968))"
  by (simp add: wrap_map coord_def uminus_vec_def wrap_shift_rounded wrap_shift_rounded_neg)

text \<open>
  Claim C6, amended. Along a periodic axis with cell length \<open>L > 0\<close>, where none of the
  float operations rounds for \<open>d\<close> nor for \<open>-d\<close>, the corrections for \<open>D\<close> and \<open>-D\<close> are
  negatives of each other exactly when \<open>d + L/2\<close> is not a multiple of \<open>L\<close>, that is,
  when \<open>d\<close> is not an odd multiple of the half cell length.
\<close>

theorem wrap_negation:
  assumes "k < length D" and "i < 3" and "periodic p i" and "0 < coord cl i"
    and "unrounded (coord (D ! k) i) (coord cl i)"
    and "unrounded (- coord (D ! k) i) (coord cl i)"
  shows "(coord (wrap (map uminus D) cl p ! k) i = - coord (wrap D cl p ! k) i)
           \<longleftrightarrow> floor_mod (coord (D ! k) i + coord cl i / 2) (coord cl i) \<noteq> 0"
proof -
  have a: "coord (wrap D cl p ! k) i
             = floor_mod (coord (D ! k) i + coord cl i / 2) (coord cl i) - coord cl i / 2 - coord (D ! k) i"
    using assms(1-3) unrounded_shift[OF assms(5)] by (simp add: coord_wrap)
  have "coord (wrap (map uminus D) cl p ! k) i = wrap_shift (- coord (D ! k) i) (coord cl i)"
    using assms(1-3) by (simp add: coord_wrap coord_uminus)
  then have b: "coord (wrap (map uminus D) cl p ! k) i
             = floor_mod (- coord (D ! k) i + coord cl i / 2) (coord cl i) - coord cl i / 2
                 - (- coord (D ! k) i)"
    using unrounded_shift[OF assms(6)] by (simp only:)
  show ?thesis unfolding a b by (rule corr_neg[OF assms(4)])
qed

theorem wrap_negation_witness:
  "coord (wrap (map uminus [Vec 3 0 0]) (Vec 4 4 4) (True, False, False) ! 0) 0
     = - coord (wrap [Vec 3 0 0] (Vec 4 4 4) (True, False, False) ! 0) 0 \<and>
   coord (wrap [Vec 3 0 0] (Vec 4 4 4) (True, False, False) ! 0) 0 = - 4 \<and>
   floor_mod (3 + 4 / 2) 4 = 1"
proof -
  have "coord (wrap (map uminus [Vec 3 0 0]) (Vec 4 4 4) (True, False, False) ! 0) 0
     = - coord (wrap [Vec 3 0 0] (Vec 4 4 4) (True, False, False) ! 0) 0"
    using wrap_negation[of 0 "[Vec 3 0 0]" 0 "(True, False, False)" "Vec 4 4 4"]
    by (simp add: periodic_def enumerate_pbc_def coord_def unrounded_3_4 floor_mod_def)
  moreover have "coord (wrap [Vec 3 0 0] (Vec 4 4 4) (True, False, False) ! 0) 0 = - 4"
    by (simp add: wrap_map coord_def unrounded_shift[OF unrounded_3_4(1)] floor_mod_def)
  moreover have "floor_mod (3 + 4 / 2) (4::real) = 1"
    by (simp add: floor_mod_def)
  ultimately show ?thesis by blast
qed

section \<open>Switching function: properties\<close>

lemma mask_set_map:
  "mask_set (replicate (length d) c0) (map p d) c = map (\<lambda>v. if p v then c else c0) d"
  by (induction d) simp_all

lemma mask_sub_map:
  "mask_sub (map f d) (map p d) (map g (mask_select d (map p d)))
     = map (\<lambda>v. if p v then f v - g v else f v) d"
  by (induction d) simp_all

lemma replicate_as_map: "replicate (length d) c = map (\<lambda>_. c) d"
  by (induction d) simp_all

lemma cutoff_map:
  "cutoff self d =
     (if width self = 0 then Inl ZeroDivisionError
      else Inr (map (\<lambda>v. if rc self - width self < v \<and> v < rc self
                          then 1 - ((v - rc self + width self) / width self)\<^sup>2
                                   * (3 - 2 * ((v - rc self + width self) / width self))
                          else if v < rc self then 1 else 0) d,
                map (\<lambda>v. if rc self - width self < v \<and> v < rc self
                          then 0 - 6 / width self * ((v - rc self + width self) / width self)
                                   * (1 - (v - rc self + width self) / width self)
                          else 0) d))"
proof -
  have x12: "map2 (\<and>) (map (\<lambda>v. v > rc self - width self) d) (map (\<lambda>v. v < rc self) d)
        = map (\<lambda>v. rc self - width self < v \<and> v < rc self) d"
    by (induction d) simp_all
  have c1: "mask_set (replicate (length d) 0) (map (\<lambda>v. v < rc self) d) 1
        = map (\<lambda>v. if v < rc self then 1 else 0) d"
    by (rule mask_set_map)
  show ?thesis
    unfolding cutoff_def Let_def x12 c1 map_map comp_def
    by (simp add: mask_sub_map[where f="\<lambda>v. if v < rc self then 1 else 0"] 
         replicate_as_map mask_sub_map[where f="\<lambda>_. 0"] cong: if_cong)
qed

lemma smoothstep_bounds:
  fixes y :: real
  assumes "0 < y" "y < 1"
  shows "0 \<le> 1 - y\<^sup>2 * (3 - 2 * y)" and "1 - y\<^sup>2 * (3 - 2 * y) \<le> 1"
proof -
  have "1 - y\<^sup>2 * (3 - 2 * y) = (1 - y)\<^sup>2 * (1 + 2 * y)"
    by (simp add: power2_eq_square algebra_simps)
  moreover have "0 \<le> (1 - y)\<^sup>2 * (1 + 2 * y)" using assms by simp
  ultimately show "0 \<le> 1 - y\<^sup>2 * (3 - 2 * y)" by simp
  have "0 \<le> y\<^sup>2 * (3 - 2 * y)" using assms by simp
  then show "1 - y\<^sup>2 * (3 - 2 * y) \<le> 1" by simp
qed

text \<open>
  Claim C4. For \<open>rc > w > 0\<close> and every distance \<open>d\<close> of the array: \<open>cutoff\<close> returns
  weight \<open>0\<close> and derivative \<open>0\<close> for \<open>d \<ge> rc\<close>; weight \<open>1\<close> and derivative \<open>0\<close> for
  \<open>d \<le> rc - w\<close>; and for \<open>rc - w < d < rc\<close>, with \<open>y = (d - rc + w)/w\<close>, the weight
  \<open>1 - y\<^sup>2(3 - 2y)\<close>, which lies in \<open>[0, 1]\<close>, and the derivative \<open>-(6/w) y (1 - y)\<close>.
  The first two cases give the values at the boundaries \<open>d = rc\<close> and \<open>d = rc - w\<close>.
\<close>

theorem cutoff_smoothstep:
  assumes "0 < width self" and "width self < rc self" and "k < length d"
  shows "\<exists>cutw dcut. cutoff self d = Inr (cutw, dcut) \<and>
           length cutw = length d \<and> length dcut = length d \<and>
           (rc self \<le> d ! k \<longrightarrow> cutw ! k = 0 \<and> dcut ! k = 0) \<and>
           (d ! k \<le> rc self - width self \<longrightarrow> cutw ! k = 1 \<and> dcut ! k = 0) \<and>
           (rc self - width self < d ! k \<and> d ! k < rc self \<longrightarrow>
              (let y = (d ! k - rc self + width self) / width self
               in cutw ! k = 1 - y\<^sup>2 * (3 - 2 * y) \<and> 0 \<le> cutw ! k \<and> cutw ! k \<le> 1 \<and>
                  dcut ! k = - (6 / width self) * y * (1 - y)))"
proof -
  let ?y = "(d ! k - rc self + width self) / width self"
  have shell: "0 \<le> 1 - ?y\<^sup>2 * (3 - 2 * ?y) \<and> 1 - ?y\<^sup>2 * (3 - 2 * ?y) \<le> 1"
    if "rc self - width self < d ! k" "d ! k < rc self"
  proof -
    have "0 < ?y" using that assms(1) by simp
    moreover have "?y < 1" using that assms(1) by simp
    ultimately show ?thesis using smoothstep_bounds[of ?y] by blast
  qed
  show ?thesis
    using assms shell by (simp add: cutoff_map Let_def)
qed

theorem cutoff_smoothstep_witness:
  "\<exists>cutw dcut. cutoff (ACN_init 5 1) [9 / 2] = Inr (cutw, dcut) \<and>
      cutw ! 0 = 1 / 2 \<and> dcut ! 0 = - 3 / 2"
  using cutoff_smoothstep[of "ACN_init 5 1" 0 "[9 / 2]"]
  by (auto simp: ACN_init_def Let_def power2_eq_square)

section \<open>Combining rule: properties\<close>

lemma set_col_matrix:
  assumes "n < k" and "length col = k"
  shows "set_col (map (\<lambda>i. map (\<lambda>j. if j < n then f j i else 0) [0..<k]) [0..<k]) n
           (map (\<lambda>i. f n i) [0..<k])
         = map (\<lambda>i. map (\<lambda>j. if j < Suc n then f j i else (0::real)) [0..<k]) [0..<k]"
proof (rule nth_equalityI)
  show "length (set_col (map (\<lambda>i. map (\<lambda>j. if j < n then f j i else 0) [0..<k]) [0..<k]) n
           (map (\<lambda>i. f n i) [0..<k]))
        = length (map (\<lambda>i. map (\<lambda>j. if j < Suc n then f j i else 0) [0..<k]) [0..<k])"
    by (simp add: set_col_def)
next
  fix i
  assume "i < length (set_col (map (\<lambda>i. map (\<lambda>j. if j < n then f j i else 0) [0..<k]) [0..<k]) n
           (map (\<lambda>i. f n i) [0..<k]))"
  then have i: "i < k" by (simp add: set_col_def)
  have "(map (\<lambda>j. if j < n then f j i else 0) [0..<k])[n := f n i]
          = map (\<lambda>j. if j < Suc n then f j i else 0) [0..<k]"
    using assms(1) by (intro nth_equalityI) (auto simp: nth_list_update less_Suc_eq)
  then show "set_col (map (\<lambda>i. map (\<lambda>j. if j < n then f j i else 0) [0..<k]) [0..<k]) n
           (map (\<lambda>i. f n i) [0..<k]) ! i
        = map (\<lambda>i. map (\<lambda>j. if j < Suc n then f j i else 0) [0..<k]) [0..<k] ! i"
    using i by (simp add: set_col_def cong: if_cong)
qed

lemma map_nth_upt: "map (\<lambda>i. g (xs ! i)) [0..<length xs] = map g xs"
  by (intro nth_equalityI) simp_all

lemma combine_fold:
  assumes "length ep = length sg" and "n \<le> length sg"
  shows "fold (combine_step sg ep) [0..<n]
           (Inr (replicate (length sg) (replicate (length sg) 0),
                 replicate (length sg) (replicate (length sg) 0)))
         = Inr (map (\<lambda>i. map (\<lambda>j. if j < n then (sg ! j + sg ! i) / 2 else 0) [0..<length sg])
                  [0..<length sg],
                map (\<lambda>i. map (\<lambda>j. if j < n then sqrt (ep ! j * ep ! i) else 0) [0..<length sg])
                  [0..<length sg])"
  using assms(2)
proof (induction n)
  case 0
  show ?case
    by (simp add: map_replicate_const)
next
  case (Suc n)
  then have n: "n < length sg" by simp
  have s: "map (\<lambda>s. (sg ! n + s) / 2) sg = map (\<lambda>i. (sg ! n + sg ! i) / 2) [0..<length sg]"
    by (simp add: map_nth_upt[where g="\<lambda>s. (sg ! n + s) / 2"])
  have e: "map (\<lambda>e. sqrt (ep ! n * e)) ep = map (\<lambda>i. sqrt (ep ! n * ep ! i)) [0..<length sg]"
    using map_nth_upt[where g="\<lambda>e. sqrt (ep ! n * e)" and xs=ep] assms(1) by simp
  have "fold (combine_step sg ep) [0..<Suc n]
           (Inr (replicate (length sg) (replicate (length sg) 0),
                 replicate (length sg) (replicate (length sg) 0)))
        = combine_step sg ep n
            (Inr (map (\<lambda>i. map (\<lambda>j. if j < n then (sg ! j + sg ! i) / 2 else 0) [0..<length sg])
                  [0..<length sg],
                map (\<lambda>i. map (\<lambda>j. if j < n then sqrt (ep ! j * ep ! i) else 0) [0..<length sg])
                  [0..<length sg]))"
    using Suc by simp
  also have "\<dots> = Inr (map (\<lambda>i. map (\<lambda>j. if j < Suc n then (sg ! j + sg ! i) / 2 else 0) [0..<length sg])
                  [0..<length sg],
                map (\<lambda>i. map (\<lambda>j. if j < Suc n then sqrt (ep ! j * ep ! i) else 0) [0..<length sg])
                  [0..<length sg])"
    unfolding combine_step_def Let_def s e
    using n assms(1)
      set_col_matrix[OF n, where f="\<lambda>j i. (sg ! j + sg ! i) / 2" and col="[0..<length sg]"]
      set_col_matrix[OF n, where f="\<lambda>j i. sqrt (ep ! j * ep ! i)" and col="[0..<length sg]"]
    by (simp add: broadcast_col_def)
  finally show ?case .
qed

text \<open>
  Claim C7. For \<open>\<sigma>\<close> and \<open>\<epsilon>\<close> of the same length \<open>k\<close> (and products of entries of
  \<open>\<epsilon>\<close> that have a square root), the combining rule returns two \<open>k \<times> k\<close> matrices
  with \<open>\<sigma>\<^sub>c[i,j] = (\<sigma>\<^sub>i + \<sigma>\<^sub>j)/2\<close> and \<open>\<epsilon>\<^sub>c[i,j] = sqrt (\<epsilon>\<^sub>i \<epsilon>\<^sub>j)\<close>; both are
  symmetric.
\<close>

theorem combine_lorentz_berthelot:
  assumes "length ep = length sg" and "sqrt_defined ep"
  shows "\<exists>sigma_c epsilon_c.
           CombineLJ_lorenz_berthelot sg ep = Inr (sigma_c, epsilon_c) \<and>
           length sigma_c = length sg \<and> length epsilon_c = length sg \<and>
           (\<forall>i<length sg. length (sigma_c ! i) = length sg \<and> length (epsilon_c ! i) = length sg \<and>
              (\<forall>j<length sg.
                 sigma_c ! i ! j = (sg ! i + sg ! j) / 2 \<and>
                 epsilon_c ! i ! j = sqrt (ep ! i * ep ! j) \<and>
                 sigma_c ! i ! j = sigma_c ! j ! i \<and>
                 epsilon_c ! i ! j = epsilon_c ! j ! i))"
  unfolding CombineLJ_lorenz_berthelot_def Let_def combine_fold[OF assms(1) order_refl]
  by (simp add: add.commute mult.commute)

theorem combine_lorentz_berthelot_witness:
  "\<exists>sigma_c epsilon_c.
      CombineLJ_lorenz_berthelot [2, 4] [1, 4] = Inr (sigma_c, epsilon_c) \<and>
      sigma_c ! 0 ! 1 = 3 \<and> sigma_c ! 1 ! 0 = 3 \<and> epsilon_c ! 0 ! 1 = 2 \<and> epsilon_c ! 1 ! 0 = 2"
proof -
  have "length [1, 4 :: real] = length [2, 4 :: real]" and "sqrt_defined [1, 4]"
    by (simp_all add: sqrt_defined_def)
  from combine_lorentz_berthelot[OF this] obtain sigma_c epsilon_c where
    r: "CombineLJ_lorenz_berthelot [2, 4] [1, 4] = Inr (sigma_c, epsilon_c)" and
    q: "\<forall>i<length [2, 4 :: real]. length (sigma_c ! i) = length [2, 4 :: real] \<and>
          length (epsilon_c ! i) = length [2, 4 :: real] \<and>
          (\<forall>j<length [2, 4 :: real].
             sigma_c ! i ! j = ([2, 4] ! i + [2, 4] ! j) / 2 \<and>
             epsilon_c ! i ! j = sqrt ([1, 4] ! i * [1, 4] ! j) \<and>
             sigma_c ! i ! j = sigma_c ! j ! i \<and>
             epsilon_c ! i ! j = epsilon_c ! j ! i)"
    by blast
  from q[rule_format, of 0, THEN conjunct2, THEN conjunct2, rule_format, of 1] have "sigma_c ! 0 ! 1 = 3" and "epsilon_c ! 0 ! 1 = 2"
    and "sigma_c ! 1 ! 0 = 3" and "epsilon_c ! 1 ! 0 = 2"
    by simp_all
  with r show ?thesis by blast
qed

section \<open>Point-charge embedding: properties\<close>




section \<open>The evaluation: properties\<close>

text \<open>
  Claim C10. Two snapshots that differ only in the initial charges of atoms with index
  three or more give the same energy and the same forces (and leave the calculator in
  the same state): only the charges of the first three atoms are read.
\<close>

theorem charges_beyond_first_molecule_unread:
  assumes "map number (atoms s') = map number (atoms s)"
    and "map position (atoms s') = map position (atoms s)"
    and "map charge (take 3 (atoms s')) = map charge (take 3 (atoms s))"
    and "cell s' = cell s" and "pbc s' = pbc s"
  shows "calculate u self s' = calculate u self s"
  unfolding calculate_def calculate_raw_def assms by (rule refl)

theorem charges_beyond_first_molecule_unread_witness:
  "calculate ase_units (ACN_init 5 1)
     \<lparr> atoms = [mk_atom 7 (Vec 0 0 0) qN, mk_atom 6 (Vec 1 0 0) qC, mk_atom 6 (Vec 2 0 0) qMe,
                 mk_atom 7 (Vec 0 3 0) 5, mk_atom 6 (Vec 1 3 0) 6, mk_atom 6 (Vec 2 3 0) 7],
       cell = cubic_cell 10, pbc = (False, False, False) \<rparr>
   = calculate ase_units (ACN_init 5 1)
     \<lparr> atoms = [mk_atom 7 (Vec 0 0 0) qN, mk_atom 6 (Vec 1 0 0) qC, mk_atom 6 (Vec 2 0 0) qMe,
                 mk_atom 7 (Vec 0 3 0) qN, mk_atom 6 (Vec 1 3 0) qC, mk_atom 6 (Vec 2 3 0) qMe],
       cell = cubic_cell 10, pbc = (False, False, False) \<rparr>"
  by (rule charges_beyond_first_molecule_unread) (simp_all add: mk_atom_def)

lemma smul_zero [simp]: "smul c 0 = 0"
  by (simp add: smul_def zero_vec_def)

lemma redistribute_zero3:
  "(n, me) = (0, 2) \<or> (n, me) = (2, 0) \<Longrightarrow> redistribute_forces u n me [0, 0, 0] = [0, 0, 0]"
  by (auto simp: redistribute_forces_def slice3_def set_slice3_def map3_def)

lemma calculate_no_pcpot:
  assumes "pcpot self = None" and "calculate_raw u self s = Inr raw"
  shows "calculate u self s
           = (Inr (raw_energy raw,
                   redistribute_forces u (raw_n raw) (raw_me raw) (raw_forces raw)), self)"
  by (simp add: calculate_def assms)

lemma pcpot_ACN_init [simp]: "pcpot (ACN_init r w) = None"
  by (simp add: ACN_init_def)

text \<open>
  Claim C8. A snapshot of exactly one molecule whose checks pass (three atoms, a diagonal
  cell, nitrogen at offset 0 or at offset 2), with no external field attached: the
  evaluation returns, the energy is \<open>0\<close> and every force is \<open>0\<close>, both as accumulated
  before the redistribution and as returned after it.
\<close>

theorem single_molecule_zero:
  assumes "length (atoms s) = 3"
    and "cell s = np_diag (diagonal (cell s))"
    and "number (atoms s ! 0) = 7 \<or> number (atoms s ! 2) = 7"
    and "pcpot self = None"
  shows "\<exists>raw. calculate_raw u self s = Inr raw \<and> raw_energy raw = 0 \<and> raw_forces raw = [0, 0, 0] \<and>
           fst (calculate u self s) = Inr (0, [0, 0, 0])"
proof -
  from assms(1) obtain a b c where abc: "atoms s = [a, b, c]"
    by (auto simp: length_Suc_conv numeral_3_eq_3)
  have R: "reshape_molecules (map position (atoms s)) = Inr [[position a, position b, position c]]"
    by (simp add: abc reshape_molecules_def)
  from assms(3) have "\<exists>n me. check_sequence (map number (atoms s)) = Inr (n, me)
      \<and> ((n, me) = (0, 2) \<or> (n, me) = (2, 0))"
    by (auto simp: abc check_sequence_def np_all_def all_method_def slice3_def)
  then obtain n me where chk: "check_sequence (map number (atoms s)) = Inr (n, me)"
    and nme: "(n, me) = (0, 2) \<or> (n, me) = (2, 0)" by blast
  have raw: "calculate_raw u self s = Inr \<lparr> raw_n = n, raw_me = me,
      raw_charges = map charge (take 3 (atoms s)), raw_nm = 1, raw_energy = 0, raw_forces = [0, 0, 0] \<rparr>"
    using assms(2) by (simp add: calculate_raw_def R chk numeral_3_eq_3)
  show ?thesis
    using redistribute_zero3[OF nme] by (simp add: raw calculate_def assms(4))
qed

theorem single_molecule_zero_witness:
  "\<exists>raw. calculate_raw ase_units (ACN_init 5 1)
            \<lparr> atoms = [mk_atom 7 (Vec 0 0 0) qN, mk_atom 6 (Vec (1157 / 1000) 0 0) qC,
                        mk_atom 6 (Vec (2615 / 1000) 0 0) qMe],
              cell = cubic_cell 10, pbc = (True, True, True) \<rparr> = Inr raw \<and>
         raw_energy raw = 0 \<and> raw_forces raw = [0, 0, 0] \<and>
         fst (calculate ase_units (ACN_init 5 1)
            \<lparr> atoms = [mk_atom 7 (Vec 0 0 0) qN, mk_atom 6 (Vec (1157 / 1000) 0 0) qC,
                        mk_atom 6 (Vec (2615 / 1000) 0 0) qMe],
              cell = cubic_cell 10, pbc = (True, True, True) \<rparr>) = Inr (0, [0, 0, 0])"
  using single_molecule_zero[of
      "\<lparr> atoms = [mk_atom 7 (Vec 0 0 0) qN, mk_atom 6 (Vec (1157 / 1000) 0 0) qC,
                        mk_atom 6 (Vec (2615 / 1000) 0 0) qMe],
              cell = cubic_cell 10, pbc = (True, True, True) \<rparr>" "ACN_init 5 1" ase_units]
  by (simp add: mk_atom_def cubic_cell_def np_diag_def diagonal_def ACN_init_def)

text \<open>
  Claim C1, at a failing input. The triplet nitrogen, oxygen, carbon has no carbon at
  offset 1. The checks of \<^verbatim>\<open>calculate\<close> pass and it returns energy and forces;
  \<^verbatim>\<open>set_acn_charges\<close> assigns the charges. The carbon assertions test the method
  object \<^verbatim>\<open>.all\<close>, not its result.
\<close>

theorem carbon_check_passes_without_carbon:
  "check_sequence (map number (atoms NOC_snapshot)) = Inr (0, 2) \<and>
   fst (calculate ase_units (ACN_init 5 1) NOC_snapshot) = Inr (0, [0, 0, 0]) \<and>
   set_acn_charges (atoms NOC_snapshot) 0 [0, 0, 0]
     = Inr [mk_atom 7 (Vec 0 0 0) qN, mk_atom 8 (Vec 1 0 0) qC, mk_atom 6 (Vec 2 0 0) qMe]"
proof -
  have c0: "check_sequence [7, 8, 6] = Inr (0, 2)"
    by (simp add: check_sequence_def np_all_def all_method_def slice3_def)
  have c: "check_sequence (map number (atoms NOC_snapshot)) = Inr (0, 2)"
    by (simp add: NOC_snapshot_def mk_atom_def c0)
  have raw: "calculate_raw ase_units (ACN_init 5 1) NOC_snapshot = Inr \<lparr> raw_n = 0, raw_me = 2,
      raw_charges = [0, 0, 0], raw_nm = 1, raw_energy = 0, raw_forces = [0, 0, 0] \<rparr>"
    by (simp add: calculate_raw_def NOC_snapshot_def mk_atom_def reshape_molecules_def
        cubic_cell_def np_diag_def diagonal_def numeral_3_eq_3 c0)
  have f: "fst (calculate ase_units (ACN_init 5 1) NOC_snapshot) = Inr (0, [0, 0, 0])"
    using redistribute_zero3[of 0 2 ase_units] by (simp add: calculate_no_pcpot[OF _ raw])
  have s: "set_acn_charges (atoms NOC_snapshot) 0 [0, 0, 0]
     = Inr [mk_atom 7 (Vec 0 0 0) qN, mk_atom 8 (Vec 1 0 0) qC, mk_atom 6 (Vec 2 0 0) qMe]"
    by (simp add: set_acn_charges_def NOC_snapshot_def mk_atom_def all_method_def slice3_def
        fill_slice3_def set_slice3_def set_initial_charges_def Let_def)
  from c f s show ?thesis by blast
qed

section \<open>Rigid-body force redistribution: properties\<close>

lemma every3_Cons: "every3 (x # xs) = x # every3 (drop 2 xs)"
  by (cases "(x # xs)" rule: every3.cases) simp_all

lemma assign3_Cons: "assign3 (x # xs) (v # vs) = v # take 2 xs @ assign3 (drop 2 xs) vs"
  by (cases "(x # xs, v # vs)" rule: assign3.cases) simp_all

lemma slice3_chunk:
  "s < 3 \<Longrightarrow> slice3 s (x # y # z # r) = ([x, y, z] ! s) # slice3 s r"
  by (auto simp: slice3_def every3_Cons less_Suc_eq numeral_3_eq_3 numeral_2_eq_2)

lemma set_slice3_chunk:
  "s < 3 \<Longrightarrow> set_slice3 s (x # y # z # r) (v # vs) = [x, y, z][s := v] @ set_slice3 s r vs"
  by (auto simp: set_slice3_def assign3_Cons less_Suc_eq numeral_3_eq_3 numeral_2_eq_2)

lemma set_slice3_Nil [simp]: "set_slice3 s [] vs = []"
  by (simp add: set_slice3_def)

lemma slice3_Nil [simp]: "slice3 s [] = []"
  by (simp add: slice3_def)

lemma map3_Cons [simp]: "map3 f (a # as) (b # bs) (c # cs) = f a b c # map3 f as bs cs"
  by (simp add: map3_def)

lemma map3_Nil [simp]: "map3 f [] bs cs = []"
  by (simp add: map3_def)

lemma chunk_shape:
  assumes "length f = 3 * nm" and "0 < nm"
  shows "\<exists>x y z r. f = x # y # z # r \<and> length r = 3 * (nm - 1)"
proof -
  from assms(2) obtain m where m: "nm = Suc m" by (cases nm) auto
  from assms(1) have "length f = Suc (Suc (Suc (3 * m)))" by (simp add: m)
  then have "\<exists>x y z r. f = x # y # z # r \<and> length r = 3 * m"
    by (auto simp: length_Suc_conv)
  then show ?thesis by (simp add: m)
qed

lemma redistribute_Nil [simp]: "redistribute_forces u n me [] = []"
  by (simp add: redistribute_forces_def)

lemma redistribute_chunk02:
  "redistribute_forces u 0 2 (x # y # z # r)
     = [smul (1 - NN u * MMeC u * CN) x - smul (NN u * MCN u * CMe) z + smul (NN u * MMeN u) y,
        0,
        smul (1 - NMe u * MCN u * CMe) z - smul (NMe u * MMeC u * CN) x + smul (NMe u * MMeN u) y]
       @ redistribute_forces u 0 2 r"
  by (simp add: redistribute_forces_def Let_def slice3_chunk set_slice3_chunk)

lemma redistribute_chunk20:
  "redistribute_forces u 2 0 (x # y # z # r)
     = [smul (1 - NMe u * MCN u * CMe) x - smul (NMe u * MMeC u * CN) z + smul (NMe u * MMeN u) y,
        0,
        smul (1 - NN u * MMeC u * CN) z - smul (NN u * MCN u * CMe) x + smul (NN u * MMeN u) y]
       @ redistribute_forces u 2 0 r"
  by (simp add: redistribute_forces_def Let_def slice3_chunk set_slice3_chunk)

lemma nth_chunk: "(a # b # c # ys) ! (3 * Suc k + i) = ys ! (3 * k + i)"
proof -
  have "3 * Suc k + i = Suc (Suc (Suc (3 * k + i)))" by simp
  then show ?thesis by (simp only: nth_Cons_Suc)
qed

lemma chunked_nth:
  assumes step: "\<And>x y z r. g (x # y # z # r) = h x y z @ g r"
    and len: "\<And>x y z. length (h x y z) = 3"
    and "length f = 3 * nm" and "k < nm" and "i < 3"
  shows "g f ! (3 * k + i) = h (f ! (3 * k)) (f ! (3 * k + 1)) (f ! (3 * k + 2)) ! i"
  using assms(3,4)
proof (induction k arbitrary: f nm)
  case 0
  then have "0 < nm" by simp
  from chunk_shape[OF "0.prems"(1) this] obtain x y z r where f: "f = x # y # z # r" by blast
  show ?case unfolding f step using len[of x y z] \<open>i < 3\<close> by (simp add: nth_append)
next
  case (Suc k)
  then have "0 < nm" by simp
  from chunk_shape[OF Suc.prems(1) this] obtain x y z r
    where f: "f = x # y # z # r" and r: "length r = 3 * (nm - 1)" by blast
  from Suc.prems(2) have k: "k < nm - 1" by simp
  have a: "(h x y z @ g r) ! (3 * Suc k + i) = g r ! (3 * k + i)"
    using len[of x y z] by (simp add: nth_append)
  have b: "(x # y # z # r) ! (3 * Suc k + j) = r ! (3 * k + j)" for j
    by (rule nth_chunk)
  show ?case
    unfolding f step a using Suc.IH[OF r k] b[of 0] b[of 1] b[of 2] by simp
qed

lemma redistribute_nth02:
  assumes "length f = 3 * nm" and "k < nm"
  shows "redistribute_forces u 0 2 f ! (3 * k) =
           smul (1 - NN u * MMeC u * CN) (f ! (3 * k)) - smul (NN u * MCN u * CMe) (f ! (3 * k + 2))
             + smul (NN u * MMeN u) (f ! (3 * k + 1))"
    and "redistribute_forces u 0 2 f ! (3 * k + 1) = 0"
    and "redistribute_forces u 0 2 f ! (3 * k + 2) =
           smul (1 - NMe u * MCN u * CMe) (f ! (3 * k + 2)) - smul (NMe u * MMeC u * CN) (f ! (3 * k))
             + smul (NMe u * MMeN u) (f ! (3 * k + 1))"
  using chunked_nth[of "redistribute_forces u 0 2", OF redistribute_chunk02 _ assms, of 0]
    chunked_nth[of "redistribute_forces u 0 2", OF redistribute_chunk02 _ assms, of 1]
    chunked_nth[of "redistribute_forces u 0 2", OF redistribute_chunk02 _ assms, of 2]
  by simp_all

lemma redistribute_nth20:
  assumes "length f = 3 * nm" and "k < nm"
  shows "redistribute_forces u 2 0 f ! (3 * k + 2) =
           smul (1 - NN u * MMeC u * CN) (f ! (3 * k + 2)) - smul (NN u * MCN u * CMe) (f ! (3 * k))
             + smul (NN u * MMeN u) (f ! (3 * k + 1))"
    and "redistribute_forces u 2 0 f ! (3 * k + 1) = 0"
    and "redistribute_forces u 2 0 f ! (3 * k) =
           smul (1 - NMe u * MCN u * CMe) (f ! (3 * k)) - smul (NMe u * MMeC u * CN) (f ! (3 * k + 2))
             + smul (NMe u * MMeN u) (f ! (3 * k + 1))"
  using chunked_nth[of "redistribute_forces u 2 0", OF redistribute_chunk20 _ assms, of 0]
    chunked_nth[of "redistribute_forces u 2 0", OF redistribute_chunk20 _ assms, of 1]
    chunked_nth[of "redistribute_forces u 2 0", OF redistribute_chunk20 _ assms, of 2]
  by simp_all

lemma redistribute_nth:
  assumes "(n, me) = (0, 2) \<or> (n, me) = (2, 0)" and "length f = 3 * nm" and "k < nm"
  shows "redistribute_forces u n me f ! (3 * k + n) =
           smul (1 - NN u * MMeC u * CN) (f ! (3 * k + n)) - smul (NN u * MCN u * CMe) (f ! (3 * k + me))
             + smul (NN u * MMeN u) (f ! (3 * k + 1))"
    and "redistribute_forces u n me f ! (3 * k + 1) = 0"
    and "redistribute_forces u n me f ! (3 * k + me) =
           smul (1 - NMe u * MCN u * CMe) (f ! (3 * k + me)) - smul (NMe u * MMeC u * CN) (f ! (3 * k + n))
             + smul (NMe u * MMeN u) (f ! (3 * k + 1))"
proof -
  from assms(1) consider "n = 0" "me = 2" | "n = 2" "me = 0" by auto
  then have "redistribute_forces u n me f ! (3 * k + n) =
           smul (1 - NN u * MMeC u * CN) (f ! (3 * k + n)) - smul (NN u * MCN u * CMe) (f ! (3 * k + me))
             + smul (NN u * MMeN u) (f ! (3 * k + 1)) \<and>
         redistribute_forces u n me f ! (3 * k + 1) = 0 \<and>
         redistribute_forces u n me f ! (3 * k + me) =
           smul (1 - NMe u * MCN u * CMe) (f ! (3 * k + me)) - smul (NMe u * MMeC u * CN) (f ! (3 * k + n))
             + smul (NMe u * MMeN u) (f ! (3 * k + 1))"
  proof cases
    case 1
    show ?thesis unfolding 1 using redistribute_nth02[OF assms(2,3), of u] by simp
  next
    case 2
    show ?thesis unfolding 2 using redistribute_nth20[OF assms(2,3), of u] by simp
  qed
  then show "redistribute_forces u n me f ! (3 * k + n) =
           smul (1 - NN u * MMeC u * CN) (f ! (3 * k + n)) - smul (NN u * MCN u * CMe) (f ! (3 * k + me))
             + smul (NN u * MMeN u) (f ! (3 * k + 1))"
    and "redistribute_forces u n me f ! (3 * k + 1) = 0"
    and "redistribute_forces u n me f ! (3 * k + me) =
           smul (1 - NMe u * MCN u * CMe) (f ! (3 * k + me)) - smul (NMe u * MMeC u * CN) (f ! (3 * k + n))
             + smul (NMe u * MMeN u) (f ! (3 * k + 1))"
    by blast+
qed

text \<open>The scalar identities behind the redistribution, for \<open>a + b = 1\<close> and positive masses.\<close>

lemma rigid_weights:
  fixes a b c n m :: real
  assumes "a + b = 1" and "0 < c" and "0 < n" and "0 < m"
  defines "den \<equiv> a\<^sup>2 * (c * n) + b\<^sup>2 * (c * m) + n * m"
  shows "0 < den"
    and "(1 + c * b / n) * (1 - b / den * (c * m) * b) - (1 + c * a / m) * (a / den * (c * m) * b) = 1"
    and "(1 + c * a / m) * (1 - a / den * (c * n) * a) - (1 + c * b / n) * (b / den * (c * n) * a) = 1"
    and "(1 + c * b / n) * (b / den * (n * m)) + (1 + c * a / m) * (a / den * (n * m)) = 1"
proof -
  have b: "b = 1 - a" using assms(1) by simp
  have "0 \<le> a\<^sup>2 * (c * n)" "0 \<le> b\<^sup>2 * (c * m)" "0 < n * m"
    using assms by simp_all
  then show d: "0 < den" unfolding den_def by linarith
  then have dn: "den \<noteq> 0" by simp
  have nz: "n \<noteq> 0" "m \<noteq> 0" using assms by simp_all
  have e1: "(n + c * b) * (den - b * (c * m) * b) * m - (m + c * a) * (a * (c * m) * b) * n = den * n * m"
    unfolding den_def b by (simp add: power2_eq_square algebra_simps)
  have e2: "(m + c * a) * (den - a * (c * n) * a) * n - (n + c * b) * (b * (c * n) * a) * m = den * n * m"
    unfolding den_def b by (simp add: power2_eq_square algebra_simps)
  have e3: "(n + c * b) * (b * (n * m)) * m + (m + c * a) * (a * (n * m)) * n = den * n * m"
    unfolding den_def b by (simp add: power2_eq_square algebra_simps)
  have "(1 + c * b / n) * (1 - b / den * (c * m) * b) - (1 + c * a / m) * (a / den * (c * m) * b)
        = ((n + c * b) * (den - b * (c * m) * b) * m - (m + c * a) * (a * (c * m) * b) * n) / (den * n * m)"
    using dn nz by (simp add: field_simps)
  also have "\<dots> = 1" unfolding e1 using dn nz by simp
  finally show "(1 + c * b / n) * (1 - b / den * (c * m) * b) - (1 + c * a / m) * (a / den * (c * m) * b) = 1" .
  have "(1 + c * a / m) * (1 - a / den * (c * n) * a) - (1 + c * b / n) * (b / den * (c * n) * a)
        = ((m + c * a) * (den - a * (c * n) * a) * n - (n + c * b) * (b * (c * n) * a) * m) / (den * n * m)"
    using dn nz by (simp add: field_simps)
  also have "\<dots> = 1" unfolding e2 using dn nz by simp
  finally show "(1 + c * a / m) * (1 - a / den * (c * n) * a) - (1 + c * b / n) * (b / den * (c * n) * a) = 1" .
  have "(1 + c * b / n) * (b / den * (n * m)) + (1 + c * a / m) * (a / den * (n * m))
        = ((n + c * b) * (b * (n * m)) * m + (m + c * a) * (a * (n * m)) * n) / (den * n * m)"
    using dn nz by (simp add: field_simps)
  also have "\<dots> = 1" unfolding e3 using dn nz by simp
  finally show "(1 + c * b / n) * (b / den * (n * m)) + (1 + c * a / m) * (a / den * (n * m)) = 1" .
qed

lemma CMe_CN: "CMe + CN = 1"
  by (simp add: CMe_def CN_def rMeN_def rMeC_def rCN_def)

lemma lin3:
  fixes x y z :: real
  assumes "\<alpha> * p1 - \<beta> * q2 = 1" and "\<beta> * q1 - \<alpha> * p2 = 1" and "\<alpha> * p3 + \<beta> * q3 = 1"
  shows "\<alpha> * (p1 * x - p2 * z + p3 * y) + \<beta> * (q1 * z - q2 * x + q3 * y) = x + y + z"
proof -
  have "\<alpha> * (p1 * x - p2 * z + p3 * y) + \<beta> * (q1 * z - q2 * x + q3 * y)
        = (\<alpha> * p1 - \<beta> * q2) * x + (\<beta> * q1 - \<alpha> * p2) * z + (\<alpha> * p3 + \<beta> * q3) * y"
    by (simp add: algebra_simps)
  then show ?thesis unfolding assms by simp
qed

lemma vec_lin3:
  assumes "\<alpha> * p1 - \<beta> * q2 = 1" and "\<beta> * q1 - \<alpha> * p2 = 1" and "\<alpha> * p3 + \<beta> * q3 = 1"
  shows "smul \<alpha> (smul p1 x - smul p2 z + smul p3 y) + smul \<beta> (smul q1 z - smul q2 x + smul q3 y)
           = x + y + z"
  using lin3[OF assms, of "vx x" "vx z" "vx y"] lin3[OF assms, of "vy x" "vy z" "vy y"]
    lin3[OF assms, of "vz x" "vz z" "vz y"]
  by (simp add: vec.expand smul_def plus_vec_def minus_vec_def)

lemma vec_plain_sum:
  "(smul p1 x - smul p2 z + smul p3 y) + 0 + (smul q1 z - smul q2 x + smul q3 y)
     = smul (p1 - q2) x + smul (p3 + q3) y + smul (q1 - p2) z"
  by (simp add: vec.expand smul_def plus_vec_def minus_vec_def zero_vec_def algebra_simps)

text \<open>
  Claim C2, amended. For every molecule \<open>k\<close> and arbitrary forces, with positive masses:
  the carbon row of the result is zero, and what the redistribution preserves is the
  net force on the rigid body with the carbon site moving along with the two ends,
  \<open>(1 + m\<^sub>C C\<^sub>N / m\<^sub>N) F'\<^sub>N + (1 + m\<^sub>C C\<^sub>M\<^sub>e / m\<^sub>M\<^sub>e) F'\<^sub>M\<^sub>e = F\<^sub>N + F\<^sub>C + F\<^sub>M\<^sub>e\<close>.
  The plain sum of the three output rows is the combination of the inputs given last:
  each input force enters it with a weight other than one.
\<close>

theorem redistribute_net_force:
  assumes "(n, me) = (0, 2) \<or> (n, me) = (2, 0)" and "length f = 3 * nm" and "k < nm"
    and "0 < mass_H u" and "0 < mass_C u" and "0 < mass_N u"
  shows "redistribute_forces u n me f ! (3 * k + 1) = 0 \<and>
         smul (1 + mC u * CN / mN u) (redistribute_forces u n me f ! (3 * k + n))
           + smul (1 + mC u * CMe / mMe u) (redistribute_forces u n me f ! (3 * k + me))
           = f ! (3 * k + n) + f ! (3 * k + 1) + f ! (3 * k + me) \<and>
         redistribute_forces u n me f ! (3 * k + n) + redistribute_forces u n me f ! (3 * k + 1)
           + redistribute_forces u n me f ! (3 * k + me)
           = smul (1 - NN u * MMeC u * CN - NMe u * MMeC u * CN) (f ! (3 * k + n))
             + smul (NN u * MMeN u + NMe u * MMeN u) (f ! (3 * k + 1))
             + smul (1 - NMe u * MCN u * CMe - NN u * MCN u * CMe) (f ! (3 * k + me))"
proof -
  have pos: "0 < mC u" "0 < mN u" "0 < mMe u"
    using assms(4-6) by (simp_all add: mC_def mN_def mMe_def)
  note w = rigid_weights[OF CMe_CN pos]
  have h1: "(1 + mC u * CN / mN u) * (1 - NN u * MMeC u * CN)
              - (1 + mC u * CMe / mMe u) * (NMe u * MMeC u * CN) = 1"
    using w(2) by (simp add: NN_def NMe_def MCN_def MMeC_def MMeN_def)
  have h2: "(1 + mC u * CMe / mMe u) * (1 - NMe u * MCN u * CMe)
              - (1 + mC u * CN / mN u) * (NN u * MCN u * CMe) = 1"
    using w(3) by (simp add: NN_def NMe_def MCN_def MMeC_def MMeN_def)
  have h3: "(1 + mC u * CN / mN u) * (NN u * MMeN u)
              + (1 + mC u * CMe / mMe u) * (NMe u * MMeN u) = 1"
    using w(4) by (simp add: NN_def NMe_def MCN_def MMeC_def MMeN_def)
  note r = redistribute_nth[OF assms(1-3), of u]
  show ?thesis
    unfolding r using vec_lin3[OF h1 h2 h3] vec_plain_sum by simp
qed

text \<open>
  Claim C2, as stated: the sum of the three redistributed forces equals the sum of the
  three input forces. It fails for a force on the nitrogen site alone, \<open>F\<^sub>N = (1, 0, 0)\<close>.
\<close>

theorem redistribute_net_force_counterexample:
  "sum_list (redistribute_forces ase_units 0 2 [Vec 1 0 0, Vec 0 0 0, Vec 0 0 0])
     \<noteq> sum_list [Vec 1 0 0, Vec 0 0 0, Vec 0 0 0]"
  by (simp add: redistribute_chunk02 smul_def plus_vec_def minus_vec_def zero_vec_def
      NN_def NMe_def MCN_def MMeC_def MMeN_def mC_def mN_def mMe_def CN_def CMe_def
      rMeN_def rMeC_def rCN_def ase_units_def power2_eq_square)

theorem redistribute_net_force_witness:
  "redistribute_forces ase_units 0 2 [Vec 1 0 0, Vec 0 2 0, Vec 0 0 3] ! 1 = 0 \<and>
   smul (1 + mC ase_units * CN / mN ase_units)
        (redistribute_forces ase_units 0 2 [Vec 1 0 0, Vec 0 2 0, Vec 0 0 3] ! 0)
     + smul (1 + mC ase_units * CMe / mMe ase_units)
        (redistribute_forces ase_units 0 2 [Vec 1 0 0, Vec 0 2 0, Vec 0 0 3] ! 2)
     = Vec 1 2 3"
proof -
  have m: "0 < mass_H ase_units" "0 < mass_C ase_units" "0 < mass_N ase_units"
    by (simp_all add: ase_units_def)
  have l: "length [Vec 1 0 0, Vec 0 2 0, Vec 0 0 3] = 3 * 1" by simp
  have s: "Vec 1 0 0 + Vec 0 2 0 + Vec 0 0 3 = Vec 1 2 3"
    by (simp add: plus_vec_def)
  from redistribute_net_force[OF _ l _ m, of 0 2 0] show ?thesis
    by (auto simp: s numeral_2_eq_2)
qed

section \<open>The pairwise engine: properties\<close>

lemma sum_list_map2_add:
  fixes xs ys :: "vec list"
  assumes "length xs = length ys"
  shows "sum_list (map2 (+) xs ys) = sum_list xs + sum_list ys"
  using assms by (induction xs ys rule: list_induct2) (simp_all add: algebra_simps)

lemma length_add3 [simp]: "length (add3 xs vs) = length xs"
  by (induction xs vs rule: add3.induct) simp_all

lemma sum_list_add3:
  "sum_list (add3 xs vs) = sum_list xs + sum_list (take (length (every3 xs)) vs)"
  by (induction xs vs rule: add3.induct) (simp_all add: algebra_simps)

lemma length_every3: "length (every3 xs) = (length xs + 2) div 3"
  by (induction xs rule: every3.induct) simp_all

lemma length_add_slice3 [simp]: "length (add_slice3 s xs vs) = length xs"
  by (simp add: add_slice3_def)

lemma sum_take_drop:
  fixes xs :: "vec list"
  shows "sum_list (take s xs) + sum_list (drop s xs) = sum_list xs"
proof -
  have "sum_list (take s xs @ drop s xs) = sum_list (take s xs) + sum_list (drop s xs)"
    by (rule sum_list_append)
  then show ?thesis by simp
qed

lemma sum_list_add_slice3:
  assumes "length vs \<le> (length xs - s + 2) div 3"
  shows "sum_list (add_slice3 s xs vs) = sum_list xs + sum_list vs"
proof -
  have "sum_list (add_slice3 s xs vs)
          = sum_list (take s xs) + (sum_list (drop s xs) + sum_list (take (length (every3 (drop s xs))) vs))"
    by (simp add: add_slice3_def sum_list_add3)
  also have "take (length (every3 (drop s xs))) vs = vs"
    using assms by (simp add: length_every3)
  also have "sum_list (take s xs) + (sum_list (drop s xs) + sum_list vs) = sum_list xs + sum_list vs"
    using sum_take_drop[of s xs] by (simp add: add.assoc[symmetric])
  finally show ?thesis .
qed

lemma sum_list_update_minus:
  fixes xs :: "vec list"
  assumes "i < length xs"
  shows "sum_list (xs[i := xs ! i - v]) = sum_list xs - v"
  using assms
proof (induction xs arbitrary: i)
  case Nil
  then show ?case by simp
next
  case (Cons x xs)
  show ?case
  proof (cases i)
    case 0
    then show ?thesis by (simp add: algebra_simps)
  next
    case (Suc k)
    with Cons.prems have "k < length xs" by simp
    from Cons.IH[OF this] show ?thesis by (simp add: Suc algebra_simps)
  qed
qed

lemma accumulate_invariant:
  assumes len: "length forces = 3 * nm" and m: "Suc m < nm" and j: "j < 3"
    and F: "length (concat F) = 3 * (nm - Suc m)" and Fmm: "length Fmm = nm - Suc m"
  shows "length (accumulate m j F Fmm forces) = 3 * nm"
    and "sum_list (accumulate m j F Fmm forces) = sum_list forces"
proof -
  let ?f1 = "take ((m + 1) * 3) forces @ map2 (+) (drop ((m + 1) * 3) forces) (concat F)"
  let ?f2 = "?f1[m * 3 + j := ?f1 ! (m * 3 + j) - sum_list (concat F)]"
  let ?f3 = "add_slice3 ((m + 1) * 3 + 1) ?f2 Fmm"
  let ?f4 = "?f3[m * 3 + 1 := ?f3 ! (m * 3 + 1) - sum_list Fmm]"
  have acc: "accumulate m j F Fmm forces = ?f4"
    by (simp add: accumulate_def Let_def)
  have ld: "length (drop ((m + 1) * 3) forces) = length (concat F)"
    using len m F by (simp add: algebra_simps)
  have l1: "length ?f1 = 3 * nm" using len m ld by simp
  have s1: "sum_list ?f1 = sum_list forces + sum_list (concat F)"
  proof -
    have "sum_list ?f1 = sum_list (take ((m + 1) * 3) forces)
            + (sum_list (drop ((m + 1) * 3) forces) + sum_list (concat F))"
      using sum_list_map2_add[OF ld] by simp
    also have "\<dots> = sum_list forces + sum_list (concat F)"
      using sum_take_drop[of "(m + 1) * 3" forces] by (simp add: add.assoc[symmetric])
    finally show ?thesis .
  qed
  have i2: "m * 3 + j < length ?f1" using l1 m j by simp
  have l2: "length ?f2 = 3 * nm" using l1 by simp
  have s2: "sum_list ?f2 = sum_list forces"
    using sum_list_update_minus[OF i2, of "sum_list (concat F)"] s1 by simp
  have l3: "length ?f3 = 3 * nm" using l2 by simp
  have "length Fmm \<le> (length ?f2 - ((m + 1) * 3 + 1) + 2) div 3"
    unfolding l2 Fmm using m by simp
  then have s3: "sum_list ?f3 = sum_list forces + sum_list Fmm"
    using sum_list_add_slice3[of Fmm ?f2 "(m + 1) * 3 + 1"] s2 by simp
  have i4: "m * 3 + 1 < length ?f3" using l3 m by simp
  have l4: "length ?f4 = 3 * nm" using l3 by simp
  have s4: "sum_list ?f4 = sum_list forces"
    using sum_list_update_minus[OF i4, of "sum_list Fmm"] s3 by simp
  show "length (accumulate m j F Fmm forces) = 3 * nm" unfolding acc by (rule l4)
  show "sum_list (accumulate m j F Fmm forces) = sum_list forces" unfolding acc by (rule s4)
qed

lemma length_concat_rows: "length (concat (map (\<lambda>k. map (g k) [0..<3]) [0..<K])) = 3 * K"
  by (induction K) simp_all

lemma site_step_invariant:
  assumes len: "length forces = 3 * nm" and m: "Suc m < nm" and j: "j < 3" and R: "length R = nm"
  shows "length (snd (site_step u R charges m shift Dmm d cutw dcut sigma_c epsilon_c j (energy, forces)))
           = 3 * nm"
    and "sum_list (snd (site_step u R charges m shift Dmm d cutw dcut sigma_c epsilon_c j (energy, forces)))
           = sum_list forces"
proof -
  have K: "length (drop (m + 1) R) = nm - Suc m" using R by simp
  obtain F1 Fmm1 F2 Fmm2 where
    s: "snd (site_step u R charges m shift Dmm d cutw dcut sigma_c epsilon_c j (energy, forces))
          = accumulate m j F2 Fmm2 (accumulate m j F1 Fmm1 forces)"
    and F1: "length (concat F1) = 3 * (nm - Suc m)" and Fmm1: "length Fmm1 = nm - Suc m"
    and F2: "length (concat F2) = 3 * (nm - Suc m)" and Fmm2: "length Fmm2 = nm - Suc m"
    unfolding site_step_def Let_def K
    by (simp add: length_concat_rows del: upt_Suc)
  note a1 = accumulate_invariant[OF len m j F1 Fmm1]
  note a2 = accumulate_invariant[OF a1(1) m j F2 Fmm2]
  show "length (snd (site_step u R charges m shift Dmm d cutw dcut sigma_c epsilon_c j (energy, forces)))
           = 3 * nm"
    unfolding s by (rule a2(1))
  show "sum_list (snd (site_step u R charges m shift Dmm d cutw dcut sigma_c epsilon_c j (energy, forces)))
           = sum_list forces"
    unfolding s a2(2) by (rule a1(2))
qed

lemma upt_3: "[0..<3] = [0, 1, 2]"
  by (simp add: numeral_3_eq_3 numeral_2_eq_2)

lemma fold_site_invariant:
  assumes len: "length forces = 3 * nm" and m: "Suc m < nm" and R: "length R = nm"
  shows "length (snd (fold (site_step u R charges m shift Dmm d cutw dcut sigma_c epsilon_c) [0..<3]
                       (energy, forces))) = 3 * nm"
    and "sum_list (snd (fold (site_step u R charges m shift Dmm d cutw dcut sigma_c epsilon_c) [0..<3]
                       (energy, forces))) = sum_list forces"
proof -
  let ?st = "site_step u R charges m shift Dmm d cutw dcut sigma_c epsilon_c"
  obtain e0 f0 where s0: "?st 0 (energy, forces) = (e0, f0)" by (cases "?st 0 (energy, forces)")
  obtain e1 f1 where s1: "?st 1 (e0, f0) = (e1, f1)" by (cases "?st 1 (e0, f0)")
  obtain e2 f2 where s2: "?st 2 (e1, f1) = (e2, f2)" by (cases "?st 2 (e1, f1)")
  have j: "(0::nat) < 3" "(1::nat) < 3" "(2::nat) < 3" by simp_all
  note i0 = site_step_invariant[OF len m j(1) R, of u charges shift Dmm d cutw dcut sigma_c epsilon_c energy,
      unfolded s0 snd_conv]
  note i1 = site_step_invariant[OF i0(1) m j(2) R, of u charges shift Dmm d cutw dcut sigma_c epsilon_c e0,
      unfolded s1 snd_conv]
  note i2 = site_step_invariant[OF i1(1) m j(3) R, of u charges shift Dmm d cutw dcut sigma_c epsilon_c e1,
      unfolded s2 snd_conv]
  have f: "fold ?st [0..<3] (energy, forces) = (e2, f2)"
    unfolding upt_3 fold_simps s0 comp_def s1 s2 id_def ..
  show "length (snd (fold ?st [0..<3] (energy, forces))) = 3 * nm"
    unfolding f using i2(1) by simp
  show "sum_list (snd (fold ?st [0..<3] (energy, forces))) = sum_list forces"
    unfolding f using i2(2) i1(2) i0(2) by simp
qed

lemma combine_returns:
  assumes "length ep = length sg"
  shows "\<exists>sigma_c epsilon_c. CombineLJ_lorenz_berthelot sg ep = Inr (sigma_c, epsilon_c)"
  unfolding CombineLJ_lorenz_berthelot_def Let_def combine_fold[OF assms order_refl] by blast

lemma cutoff_returns:
  assumes "width self \<noteq> 0"
  shows "\<exists>cutw dcut. cutoff self d = Inr (cutw, dcut)"
  using assms by (simp add: cutoff_map)

lemma molecule_step_invariant:
  assumes len: "length forces = 3 * nm" and m: "Suc m < nm" and R: "length R = nm"
    and w: "width self \<noteq> 0"
  shows "\<exists>energy' forces'. molecule_step u self R cl p charges m (energy, forces) = Inr (energy', forces')
           \<and> length forces' = 3 * nm \<and> sum_list forces' = sum_list forces"
proof -
  let ?Dmm0 = "map (\<lambda>mol. mol ! 1 - R ! m ! 1) (drop (m + 1) R)"
  let ?shift = "wrap ?Dmm0 cl p"
  let ?Dmm = "map2 (+) ?Dmm0 ?shift"
  let ?d = "map sqrt (map norm2 ?Dmm)"
  from cutoff_returns[OF w] obtain cutw dcut where c: "cutoff self ?d = Inr (cutw, dcut)" by blast
  have "length (epsilon u) = length sigma" by (simp add: epsilon_def sigma_def)
  from combine_returns[OF this] obtain sigma_c epsilon_c
    where lj: "CombineLJ_lorenz_berthelot sigma (epsilon u) = Inr (sigma_c, epsilon_c)" by blast
  let ?res = "fold (site_step u R charges m ?shift ?Dmm ?d cutw dcut sigma_c epsilon_c) [0..<3]
                (energy, forces)"
  have ms: "molecule_step u self R cl p charges m (energy, forces) = Inr ?res"
    unfolding molecule_step_def Let_def c lj by simp
  note inv = fold_site_invariant[OF len m R, of u charges ?shift ?Dmm ?d cutw dcut sigma_c epsilon_c energy]
  show ?thesis
    unfolding ms using inv by (cases ?res) simp
qed

lemma for_each_invariant:
  assumes step: "\<And>x s. x \<in> set xs \<Longrightarrow> P s \<Longrightarrow> \<exists>s'. f x s = Inr s' \<and> P s'"
    and "P s"
  shows "\<exists>s'. for_each f xs s = Inr s' \<and> P s'"
  using assms
proof (induction xs arbitrary: s)
  case Nil
  then show ?case by simp
next
  case (Cons x xs)
  from Cons.prems(1)[of x s] Cons.prems(2) obtain s1 where s1: "f x s = Inr s1" "P s1" by auto
  have "\<exists>s'. for_each f xs s1 = Inr s' \<and> P s'"
    by (rule Cons.IH) (use Cons.prems(1) s1(2) in auto)
  then show ?case by (simp add: s1(1))
qed

lemma length_chunks3: "length (chunks3 xs) = length xs div 3"
  by (induction xs rule: chunks3.induct) simp_all

lemma calculate_fst_no_pcpot:
  assumes "pcpot self = None" and "calculate_raw u self s = Inr raw"
  shows "fst (calculate u self s)
           = Inr (raw_energy raw, redistribute_forces u (raw_n raw) (raw_me raw) (raw_forces raw))"
  by (simp add: calculate_def assms)

lemma sum_list_zeros: "sum_list (replicate k (0::vec)) = 0"
  by (induction k) simp_all

text \<open>
  Claim C3, amended. For every snapshot that passes the checks (atoms in triplets, a
  diagonal cell, the nitrogen offsets), with all periodicity flags false, no two sites of
  different molecules at the same place, a calculator of non-zero width and no external
  field: the evaluation returns, and the forces accumulated before the redistribution,
  one per atom, sum to zero. The forces returned are the redistribution of these.
\<close>

theorem raw_forces_sum_zero:
  assumes "length (atoms s) mod 3 = 0"
    and "cell s = np_diag (diagonal (cell s))"
    and "check_sequence (map number (atoms s)) = Inr (n, me)"
    and "pbc s = (False, False, False)"
    and "separated (chunks3 (map position (atoms s)))"
    and "width self \<noteq> 0"
    and "pcpot self = None"
  shows "\<exists>raw. calculate_raw u self s = Inr raw \<and>
           length (raw_forces raw) = length (atoms s) \<and>
           sum_list (raw_forces raw) = 0 \<and>
           fst (calculate u self s)
             = Inr (raw_energy raw, redistribute_forces u n me (raw_forces raw))"
proof -
  let ?R = "chunks3 (map position (atoms s))"
  let ?nm = "length ?R"
  let ?charges = "map charge (take 3 (atoms s))"
  have R: "reshape_molecules (map position (atoms s)) = Inr ?R"
    using assms(1) by (simp add: reshape_molecules_def)
  have nm: "3 * ?nm = length (atoms s)"
    using assms(1) by (simp add: length_chunks3 mod_eq_0_iff_dvd)
  let ?P = "\<lambda>st :: real \<times> vec list. length (snd st) = 3 * ?nm \<and> sum_list (snd st) = 0"
  have step: "\<exists>st'. molecule_step u self ?R (diagonal (cell s)) (pbc s) ?charges m st = Inr st' \<and> ?P st'"
    if "m \<in> set [0..<?nm - 1]" and "?P st" for m st
  proof -
    obtain e f where st: "st = (e, f)" by (cases st)
    from that(1) have m: "Suc m < ?nm" by simp
    from that(2) have len: "length f = 3 * ?nm" and z: "sum_list f = 0" by (simp_all add: st)
    from molecule_step_invariant[OF len m refl assms(6), of u "diagonal (cell s)" "pbc s" ?charges e]
    show ?thesis unfolding st using z by auto
  qed
  have P0: "?P (0, replicate (3 * ?nm) 0)"
    by (simp add: sum_list_zeros)
  have "\<exists>st'. for_each (molecule_step u self ?R (diagonal (cell s)) (pbc s) ?charges) [0..<?nm - 1]
           (0, replicate (3 * ?nm) 0) = Inr st' \<and> ?P st'"
    by (rule for_each_invariant[where P = ?P, OF step P0])
  then obtain energy forces where
    fe: "for_each (molecule_step u self ?R (diagonal (cell s)) (pbc s) ?charges) [0..<?nm - 1]
           (0, replicate (3 * ?nm) 0) = Inr (energy, forces)"
    and len: "length forces = 3 * ?nm" and z: "sum_list forces = 0"
    by auto
  let ?raw = "\<lparr> raw_n = n, raw_me = me, raw_charges = ?charges, raw_nm = ?nm,
                 raw_energy = energy, raw_forces = forces \<rparr>"
  have h: "\<not> cell s \<noteq> np_diag (diagonal (cell s))"
    using assms(2) by blast
  have raw: "calculate_raw u self s = Inr ?raw"
    by (simp only: calculate_raw_def R Let_def sum.case if_not_P[OF h] assms(3) prod.case fe)
  have c: "fst (calculate u self s) = Inr (raw_energy ?raw, redistribute_forces u n me (raw_forces ?raw))"
    using calculate_fst_no_pcpot[OF assms(7) raw] by simp
  have l: "length (raw_forces ?raw) = length (atoms s)" using len nm by simp
  have zz: "sum_list (raw_forces ?raw) = 0" using z by simp
  from raw l zz c show ?thesis by blast
qed

theorem raw_forces_sum_zero_witness:
  "\<exists>raw. calculate_raw ase_units (ACN_init 5 1) two_molecules = Inr raw \<and>
      length (raw_forces raw) = 6 \<and> sum_list (raw_forces raw) = 0"
proof -
  have h: "length (atoms two_molecules) mod 3 = 0"
    "cell two_molecules = np_diag (diagonal (cell two_molecules))"
    "check_sequence (map number (atoms two_molecules)) = Inr (2, 0)"
    "pbc two_molecules = (False, False, False)"
    "separated (chunks3 (map position (atoms two_molecules)))"
    "width (ACN_init 5 1) \<noteq> 0"
    "pcpot (ACN_init 5 1) = None"
    by (simp_all add: two_molecules_def mk_atom_def cubic_cell_def np_diag_def diagonal_def
        check_sequence_def np_all_def all_method_def slice3_def ACN_init_def)
  have l: "length (atoms two_molecules) = 6"
    by (simp add: two_molecules_def)
  from raw_forces_sum_zero[OF h, of ase_units] show ?thesis
    unfolding l by blast
qed

lemma upt_Suc0: "[0..<Suc 0] = [0]" by simp

lemma smul_zero_left [simp]: "smul 0 v = 0"
  by (simp add: smul_def zero_vec_def)

lemma accumulate_two:
  "accumulate 0 0 [[a, b, c]] [v] [f0, f1, f2, f3, f4, f5]
     = [f0 - (a + b + c), f1 - v, f2, f3 + a, f4 + b + v, f5 + c]"
  "accumulate 0 (Suc 0) [[a, b, c]] [v] [f0, f1, f2, f3, f4, f5]
     = [f0, f1 - (a + b + c) - v, f2, f3 + a, f4 + b + v, f5 + c]"
  "accumulate 0 2 [[a, b, c]] [v] [f0, f1, f2, f3, f4, f5]
     = [f0, f1 - v, f2 - (a + b + c), f3 + a, f4 + b + v, f5 + c]"
  by (simp_all add: accumulate_def add_slice3_def Let_def)

lemma site_two:
  "snd (site_step u [[p0, p1, p2], [q0, q1, q2]] [0, 0, 0] 0 [0] [dm] [dd] [1] [0] sigma_c epsilon_c j
          (e, fs))
   = accumulate 0 j
       [[lj_pair_force sigma_c epsilon_c 0 j (q0 - [p0, p1, p2] ! j),
         lj_pair_force sigma_c epsilon_c 1 j (q1 - [p0, p1, p2] ! j),
         lj_pair_force sigma_c epsilon_c 2 j (q2 - [p0, p1, p2] ! j)]] [0]
       (accumulate 0 j [[0, 0, 0]] [0] fs)"
  unfolding site_step_def Let_def prod.case snd_conv
  by (simp add: upt_3 upt_Suc0 lj_pair_force_def lj_factor_def Let_def del: upt_Suc)

lemma wrap_nonperiodic: "wrap D cl (False, False, False) = map (\<lambda>_. 0) D"
  by (simp add: wrap_map zero_vec_def)

lemma site_two':
  "snd (site_step u [[p0, p1, p2], [q0, q1, q2]] [0, 0, 0] 0 [0] [dm] [dd] [1] [0] sigma_c epsilon_c j st)
   = accumulate 0 j
       [[lj_pair_force sigma_c epsilon_c 0 j (q0 - [p0, p1, p2] ! j),
         lj_pair_force sigma_c epsilon_c 1 j (q1 - [p0, p1, p2] ! j),
         lj_pair_force sigma_c epsilon_c 2 j (q2 - [p0, p1, p2] ! j)]] [0]
       (accumulate 0 j [[0, 0, 0]] [0] (snd st))"
  by (cases st) (simp only: site_two snd_conv)

lemma fold_site_two:
  "snd (fold (site_step u [[p0, p1, p2], [q0, q1, q2]] [0, 0, 0] 0 [0] [dm] [dd] [1] [0] sigma_c epsilon_c)
          [0..<3] (e, [0, 0, 0, 0, 0, 0]))
   = [- (lj_pair_force sigma_c epsilon_c 0 0 (q0 - p0) + lj_pair_force sigma_c epsilon_c 1 0 (q1 - p0)
          + lj_pair_force sigma_c epsilon_c 2 0 (q2 - p0)),
      - (lj_pair_force sigma_c epsilon_c 0 1 (q0 - p1) + lj_pair_force sigma_c epsilon_c 1 1 (q1 - p1)
          + lj_pair_force sigma_c epsilon_c 2 1 (q2 - p1)),
      - (lj_pair_force sigma_c epsilon_c 0 2 (q0 - p2) + lj_pair_force sigma_c epsilon_c 1 2 (q1 - p2)
          + lj_pair_force sigma_c epsilon_c 2 2 (q2 - p2)),
      lj_pair_force sigma_c epsilon_c 0 0 (q0 - p0) + lj_pair_force sigma_c epsilon_c 0 1 (q0 - p1)
          + lj_pair_force sigma_c epsilon_c 0 2 (q0 - p2),
      lj_pair_force sigma_c epsilon_c 1 0 (q1 - p0) + lj_pair_force sigma_c epsilon_c 1 1 (q1 - p1)
          + lj_pair_force sigma_c epsilon_c 1 2 (q1 - p2),
      lj_pair_force sigma_c epsilon_c 2 0 (q2 - p0) + lj_pair_force sigma_c epsilon_c 2 1 (q2 - p1)
          + lj_pair_force sigma_c epsilon_c 2 2 (q2 - p2)]"
  unfolding upt_3 fold_simps comp_def id_def site_two'
  by (simp add: accumulate_two)

lemma sqrt_25_4: "sqrt (25 / 4) = 5 / 2"
  using real_sqrt_abs[of "5 / 2"] by (simp add: power2_eq_square)

lemma calculate_raw_eq:
  assumes R: "reshape_molecules (map position (atoms s)) = Inr R"
    and c: "cell s = np_diag (diagonal (cell s))"
    and Z: "check_sequence (map number (atoms s)) = Inr (n, me)"
    and fe: "for_each (molecule_step u self R (diagonal (cell s)) (pbc s) (map charge (take 3 (atoms s))))
               [0..<length R - 1] (0, replicate (3 * length R) 0) = Inr (energy, forces)"
  shows "calculate_raw u self s
           = Inr \<lparr> raw_n = n, raw_me = me, raw_charges = map charge (take 3 (atoms s)),
                   raw_nm = length R, raw_energy = energy, raw_forces = forces \<rparr>"
proof -
  have h: "\<not> cell s \<noteq> np_diag (diagonal (cell s))"
    using c by blast
  show ?thesis
    by (simp only: calculate_raw_def R Let_def sum.case if_not_P[OF h] Z prod.case fe)
qed

lemma two_molecules_raw:
  assumes lj: "CombineLJ_lorenz_berthelot sigma (epsilon u) = Inr (sigma_c, epsilon_c)"
  shows "\<exists>E. calculate_raw u (ACN_init 5 1) two_molecules
           = Inr \<lparr> raw_n = 2, raw_me = 0, raw_charges = [0, 0, 0], raw_nm = 2, raw_energy = E,
                   raw_forces =
     [- (lj_pair_force sigma_c epsilon_c 0 0 (Vec 0 (5 / 2) 0)
          + lj_pair_force sigma_c epsilon_c 1 0 (Vec (729 / 500) (5 / 2) 0)
          + lj_pair_force sigma_c epsilon_c 2 0 (Vec (523 / 200) (5 / 2) 0)),
      - (lj_pair_force sigma_c epsilon_c 0 1 (Vec (- (729 / 500)) (5 / 2) 0)
          + lj_pair_force sigma_c epsilon_c 1 1 (Vec 0 (5 / 2) 0)
          + lj_pair_force sigma_c epsilon_c 2 1 (Vec (1157 / 1000) (5 / 2) 0)),
      - (lj_pair_force sigma_c epsilon_c 0 2 (Vec (- (523 / 200)) (5 / 2) 0)
          + lj_pair_force sigma_c epsilon_c 1 2 (Vec (- (1157 / 1000)) (5 / 2) 0)
          + lj_pair_force sigma_c epsilon_c 2 2 (Vec 0 (5 / 2) 0)),
      lj_pair_force sigma_c epsilon_c 0 0 (Vec 0 (5 / 2) 0)
          + lj_pair_force sigma_c epsilon_c 0 1 (Vec (- (729 / 500)) (5 / 2) 0)
          + lj_pair_force sigma_c epsilon_c 0 2 (Vec (- (523 / 200)) (5 / 2) 0),
      lj_pair_force sigma_c epsilon_c 1 0 (Vec (729 / 500) (5 / 2) 0)
          + lj_pair_force sigma_c epsilon_c 1 1 (Vec 0 (5 / 2) 0)
          + lj_pair_force sigma_c epsilon_c 1 2 (Vec (- (1157 / 1000)) (5 / 2) 0),
      lj_pair_force sigma_c epsilon_c 2 0 (Vec (523 / 200) (5 / 2) 0)
          + lj_pair_force sigma_c epsilon_c 2 1 (Vec (1157 / 1000) (5 / 2) 0)
          + lj_pair_force sigma_c epsilon_c 2 2 (Vec 0 (5 / 2) 0)] \<rparr>"
proof -
  let ?p0 = "Vec 0 0 0" and ?p1 = "Vec (729 / 500) 0 0" and ?p2 = "Vec (523 / 200) 0 0"
  let ?q0 = "Vec 0 (5 / 2) 0" and ?q1 = "Vec (729 / 500) (5 / 2) 0" and ?q2 = "Vec (523 / 200) (5 / 2) 0"
  let ?R = "[[?p0, ?p1, ?p2], [?q0, ?q1, ?q2]]"
  have R: "reshape_molecules (map position (atoms two_molecules)) = Inr ?R"
    by (simp add: two_molecules_def mk_atom_def reshape_molecules_def)
  have Z: "check_sequence (map number (atoms two_molecules)) = Inr (2, 0)"
    by (simp add: two_molecules_def mk_atom_def check_sequence_def np_all_def all_method_def slice3_def)
  have ch: "map charge (take 3 (atoms two_molecules)) = [0, 0, 0]"
    by (simp add: two_molecules_def mk_atom_def)
  have cl: "cell two_molecules = np_diag (diagonal (cell two_molecules))"
    "diagonal (cell two_molecules) = Vec 20 20 20" "pbc two_molecules = (False, False, False)"
    by (simp_all add: two_molecules_def cubic_cell_def np_diag_def diagonal_def)
  have h: "\<not> cell two_molecules \<noteq> np_diag (diagonal (cell two_molecules))"
    using cl(1) by blast
  have c: "cutoff (ACN_init 5 1) [5 / 2] = Inr ([1], [0])"
    by (simp add: cutoff_map ACN_init_def)
  obtain E where E: "fst (fold (site_step u ?R [0, 0, 0] 0 [0] [Vec 0 (5 / 2) 0] [5 / 2] [1] [0]
        sigma_c epsilon_c) [0..<3] (0, [0, 0, 0, 0, 0, 0])) = E" by blast
  have ms: "molecule_step u (ACN_init 5 1) ?R (Vec 20 20 20) (False, False, False) [0, 0, 0] 0
              (0, [0, 0, 0, 0, 0, 0])
            = Inr (fold (site_step u ?R [0, 0, 0] 0 [0] [Vec 0 (5 / 2) 0] [5 / 2] [1] [0]
                     sigma_c epsilon_c) [0..<3] (0, [0, 0, 0, 0, 0, 0]))"
    by (simp add: molecule_step_def Let_def wrap_nonperiodic minus_vec_def norm2_def sqrt_25_4
        c lj power2_eq_square)
  have fe: "for_each (molecule_step u (ACN_init 5 1) ?R (diagonal (cell two_molecules))
                (pbc two_molecules) (map charge (take 3 (atoms two_molecules))))
              [0..<length ?R - 1] (0, replicate (3 * length ?R) 0)
            = Inr (fst (fold (site_step u ?R [0, 0, 0] 0 [0] [Vec 0 (5 / 2) 0] [5 / 2] [1] [0]
                     sigma_c epsilon_c) [0..<3] (0, [0, 0, 0, 0, 0, 0])),
                   snd (fold (site_step u ?R [0, 0, 0] 0 [0] [Vec 0 (5 / 2) 0] [5 / 2] [1] [0]
                     sigma_c epsilon_c) [0..<3] (0, [0, 0, 0, 0, 0, 0])))"
  proof -
    have l: "[0..<length ?R - 1] = [0]" by simp
    have z: "replicate (3 * length ?R) (0::vec) = [0, 0, 0, 0, 0, 0]"
      by (simp add: numeral_eq_Suc)
    show ?thesis unfolding cl(2,3) ch l z for_each.simps ms by simp
  qed
  note raw = calculate_raw_eq[OF R cl(1) Z fe]
  have len: "length ?R = 2" by simp
  show ?thesis
    unfolding raw fold_site_two ch len by (simp add: minus_vec_def)
qed

lemma combine_sigma_epsilon:
  "CombineLJ_lorenz_berthelot sigma (epsilon u)
     = Inr (map (\<lambda>i. map (\<lambda>j. (sigma ! j + sigma ! i) / 2) [0, 1, 2]) [0, 1, 2],
            map (\<lambda>i. map (\<lambda>j. sqrt (epsilon u ! j * epsilon u ! i)) [0, 1, 2]) [0, 1, 2])"
proof -
  have l: "length (epsilon u) = length sigma" by (simp add: epsilon_def sigma_def)
  have k: "length sigma = 3" by (simp add: sigma_def)
  show ?thesis
    unfolding CombineLJ_lorenz_berthelot_def Let_def combine_fold[OF l order_refl]
    unfolding k upt_3 by simp
qed

lemma vx_simps [simp]:
  "vx (a + b) = vx a + vx b" "vx (a - b) = vx a - vx b" "vx (- a) = - vx a"
  "vx (smul c a) = c * vx a" "vx 0 = 0"
  by (simp_all add: plus_vec_def minus_vec_def uminus_vec_def smul_def zero_vec_def)

lemma sum_redistribute_two:
  "sum_list (redistribute_forces u 2 0 [r0, r1, r2, r3, r4, r5])
     = smul (1 - NMe u * MCN u * CMe - NN u * MCN u * CMe) (r0 + r3)
       + smul (NMe u * MMeN u + NN u * MMeN u) (r1 + r4)
       + smul (1 - NN u * MMeC u * CN - NMe u * MMeC u * CN) (r2 + r5)"
  by (simp add: redistribute_chunk20 vec.expand smul_def plus_vec_def minus_vec_def zero_vec_def
      algebra_simps)

lemma vx_lj_pair_force:
  "vx (lj_pair_force sigma_c epsilon_c i j D)
     = 24 * epsilon_c ! i ! j * lj_factor ((sigma_c ! i ! j)\<^sup>2) (norm2 D) * vx D"
  by (simp add: lj_pair_force_def)

text \<open>The factor \<open>(2 c\<^sub>1\<^sub>2 - c\<^sub>6) / r\<^sup>2\<close> of the Lennard-Jones force is bounded below where \<open>\<sigma>\<^sup>2 / r\<^sup>2 \<ge> t\<close>.\<close>

lemma lj_factor_lower:
  fixes t s2 r2 :: real
  assumes "0 < r2" and "1 \<le> t" and "t \<le> s2 / r2"
  shows "(2 * t ^ 3 - 1) * t ^ 3 / r2 \<le> lj_factor s2 r2"
proof -
  let ?c = "(s2 / r2) ^ 3"
  have c: "t ^ 3 \<le> ?c" using assms by (intro power_mono) simp_all
  have t1: "1 \<le> t ^ 3" using assms(2) by simp
  have c1: "1 \<le> ?c" using c t1 by linarith
  have "(2 * t ^ 3 - 1) * t ^ 3 \<le> (2 * ?c - 1) * ?c"
  proof (rule mult_mono)
    show "2 * t ^ 3 - 1 \<le> 2 * ?c - 1" using c by linarith
    show "t ^ 3 \<le> ?c" by (rule c)
    show "0 \<le> 2 * ?c - 1" using c1 by linarith
    show "0 \<le> t ^ 3" using t1 by linarith
  qed
  also have "\<dots> = 2 * ?c\<^sup>2 - ?c" by (simp add: power2_eq_square algebra_simps)
  finally show ?thesis using assms(1) by (simp add: lj_factor_def Let_def divide_right_mono)
qed

lemma lj_factor_nonneg:
  fixes t s2 r2 :: real
  assumes "0 < r2" and "4 / 5 \<le> s2 / r2"
  shows "0 \<le> lj_factor s2 r2"
proof -
  let ?c = "(s2 / r2) ^ 3"
  have "(4 / 5) ^ 3 \<le> ?c" using assms by (intro power_mono) simp_all
  then have c: "1 / 2 \<le> ?c" by (simp add: power3_eq_cube)
  have "0 \<le> (2 * ?c - 1) * ?c"
  proof (rule mult_nonneg_nonneg)
    show "0 \<le> 2 * ?c - 1" using c by linarith
    show "0 \<le> ?c" using c by linarith
  qed
  also have "\<dots> = 2 * ?c\<^sup>2 - ?c" by (simp add: power2_eq_square algebra_simps)
  finally show ?thesis using assms(1) by (simp add: lj_factor_def Let_def)
qed

lemma combine_entries:
  "\<exists>sigma_c epsilon_c.
     CombineLJ_lorenz_berthelot sigma (epsilon u) = Inr (sigma_c, epsilon_c) \<and>
     sigma_c ! 0 ! 1 = 297 / 80 \<and> sigma_c ! 1 ! 0 = 297 / 80 \<and>
     sigma_c ! 0 ! 2 = 279 / 80 \<and> sigma_c ! 2 ! 0 = 279 / 80 \<and>
     sigma_c ! 1 ! 2 = 137 / 40 \<and> sigma_c ! 2 ! 1 = 137 / 40 \<and>
     epsilon_c ! 0 ! 1 = sqrt (epsilonMe u * epsilonC u) \<and>
     epsilon_c ! 1 ! 0 = sqrt (epsilonMe u * epsilonC u) \<and>
     epsilon_c ! 0 ! 2 = sqrt (epsilonMe u * epsilonN u) \<and>
     epsilon_c ! 2 ! 0 = sqrt (epsilonMe u * epsilonN u) \<and>
     epsilon_c ! 1 ! 2 = sqrt (epsilonC u * epsilonN u) \<and>
     epsilon_c ! 2 ! 1 = sqrt (epsilonC u * epsilonN u)"
  unfolding combine_sigma_epsilon
  by (simp add: sigma_def epsilon_def sigmaMe_def sigmaC_def sigmaN_def mult.commute)

text \<open>
  Claim C3, as stated, for the forces returned after the redistribution: they sum to
  zero. For the two molecules above the evaluation returns, and the first component of
  the sum of the returned forces is below \<open>-1/10\<close>.
\<close>

theorem final_forces_sum_counterexample:
  "(case fst (calculate ase_units (ACN_init 5 1) two_molecules) of
      Inl err \<Rightarrow> False
    | Inr (energy, forces) \<Rightarrow> vx (sum_list forces) < - (1 / 10))"
proof -
  obtain sigma_c epsilon_c where
    lj: "CombineLJ_lorenz_berthelot sigma (epsilon ase_units) = Inr (sigma_c, epsilon_c)"
    and sc: "sigma_c ! 0 ! 1 = 297 / 80" "sigma_c ! 1 ! 0 = 297 / 80"
      "sigma_c ! 0 ! 2 = 279 / 80" "sigma_c ! 2 ! 0 = 279 / 80"
      "sigma_c ! 1 ! 2 = 137 / 40" "sigma_c ! 2 ! 1 = 137 / 40"
    and ec: "epsilon_c ! 0 ! 1 = sqrt (epsilonMe ase_units * epsilonC ase_units)"
      "epsilon_c ! 1 ! 0 = sqrt (epsilonMe ase_units * epsilonC ase_units)"
      "epsilon_c ! 0 ! 2 = sqrt (epsilonMe ase_units * epsilonN ase_units)"
      "epsilon_c ! 2 ! 0 = sqrt (epsilonMe ase_units * epsilonN ase_units)"
      "epsilon_c ! 1 ! 2 = sqrt (epsilonC ase_units * epsilonN ase_units)"
      "epsilon_c ! 2 ! 1 = sqrt (epsilonC ase_units * epsilonN ase_units)"
    using combine_entries[of ase_units] by blast
  define E01 where "E01 = sqrt (epsilonMe ase_units * epsilonC ase_units)"
  define E02 where "E02 = sqrt (epsilonMe ase_units * epsilonN ase_units)"
  define E12 where "E12 = sqrt (epsilonC ase_units * epsilonN ase_units)"
  have b01: "67 / 10000 \<le> E01"
    unfolding E01_def
    by (rule real_le_rsqrt) (simp add: epsilonMe_def epsilonC_def ase_units_def power2_eq_square)
  have b12: "6 / 1000 \<le> E12"
    unfolding E12_def
    by (rule real_le_rsqrt) (simp add: epsilonC_def epsilonN_def ase_units_def power2_eq_square)
  have b02: "0 \<le> E02"
    unfolding E02_def by (simp add: epsilonMe_def epsilonN_def ase_units_def)
  from two_molecules_raw[OF lj] obtain E where
    raw: "calculate_raw ase_units (ACN_init 5 1) two_molecules
           = Inr \<lparr> raw_n = 2, raw_me = 0, raw_charges = [0, 0, 0], raw_nm = 2, raw_energy = E,
                   raw_forces =
     [- (lj_pair_force sigma_c epsilon_c 0 0 (Vec 0 (5 / 2) 0)
          + lj_pair_force sigma_c epsilon_c 1 0 (Vec (729 / 500) (5 / 2) 0)
          + lj_pair_force sigma_c epsilon_c 2 0 (Vec (523 / 200) (5 / 2) 0)),
      - (lj_pair_force sigma_c epsilon_c 0 1 (Vec (- (729 / 500)) (5 / 2) 0)
          + lj_pair_force sigma_c epsilon_c 1 1 (Vec 0 (5 / 2) 0)
          + lj_pair_force sigma_c epsilon_c 2 1 (Vec (1157 / 1000) (5 / 2) 0)),
      - (lj_pair_force sigma_c epsilon_c 0 2 (Vec (- (523 / 200)) (5 / 2) 0)
          + lj_pair_force sigma_c epsilon_c 1 2 (Vec (- (1157 / 1000)) (5 / 2) 0)
          + lj_pair_force sigma_c epsilon_c 2 2 (Vec 0 (5 / 2) 0)),
      lj_pair_force sigma_c epsilon_c 0 0 (Vec 0 (5 / 2) 0)
          + lj_pair_force sigma_c epsilon_c 0 1 (Vec (- (729 / 500)) (5 / 2) 0)
          + lj_pair_force sigma_c epsilon_c 0 2 (Vec (- (523 / 200)) (5 / 2) 0),
      lj_pair_force sigma_c epsilon_c 1 0 (Vec (729 / 500) (5 / 2) 0)
          + lj_pair_force sigma_c epsilon_c 1 1 (Vec 0 (5 / 2) 0)
          + lj_pair_force sigma_c epsilon_c 1 2 (Vec (- (1157 / 1000)) (5 / 2) 0),
      lj_pair_force sigma_c epsilon_c 2 0 (Vec (523 / 200) (5 / 2) 0)
          + lj_pair_force sigma_c epsilon_c 2 1 (Vec (1157 / 1000) (5 / 2) 0)
          + lj_pair_force sigma_c epsilon_c 2 2 (Vec 0 (5 / 2) 0)] \<rparr>"
    by blast
  note ecE = ec[folded E01_def E02_def E12_def]
  have calc: "fst (calculate ase_units (ACN_init 5 1) two_molecules)
      = Inr (E, redistribute_forces ase_units 2 0
     [- (lj_pair_force sigma_c epsilon_c 0 0 (Vec 0 (5 / 2) 0)
          + lj_pair_force sigma_c epsilon_c 1 0 (Vec (729 / 500) (5 / 2) 0)
          + lj_pair_force sigma_c epsilon_c 2 0 (Vec (523 / 200) (5 / 2) 0)),
      - (lj_pair_force sigma_c epsilon_c 0 1 (Vec (- (729 / 500)) (5 / 2) 0)
          + lj_pair_force sigma_c epsilon_c 1 1 (Vec 0 (5 / 2) 0)
          + lj_pair_force sigma_c epsilon_c 2 1 (Vec (1157 / 1000) (5 / 2) 0)),
      - (lj_pair_force sigma_c epsilon_c 0 2 (Vec (- (523 / 200)) (5 / 2) 0)
          + lj_pair_force sigma_c epsilon_c 1 2 (Vec (- (1157 / 1000)) (5 / 2) 0)
          + lj_pair_force sigma_c epsilon_c 2 2 (Vec 0 (5 / 2) 0)),
      lj_pair_force sigma_c epsilon_c 0 0 (Vec 0 (5 / 2) 0)
          + lj_pair_force sigma_c epsilon_c 0 1 (Vec (- (729 / 500)) (5 / 2) 0)
          + lj_pair_force sigma_c epsilon_c 0 2 (Vec (- (523 / 200)) (5 / 2) 0),
      lj_pair_force sigma_c epsilon_c 1 0 (Vec (729 / 500) (5 / 2) 0)
          + lj_pair_force sigma_c epsilon_c 1 1 (Vec 0 (5 / 2) 0)
          + lj_pair_force sigma_c epsilon_c 1 2 (Vec (- (1157 / 1000)) (5 / 2) 0),
      lj_pair_force sigma_c epsilon_c 2 0 (Vec (523 / 200) (5 / 2) 0)
          + lj_pair_force sigma_c epsilon_c 2 1 (Vec (1157 / 1000) (5 / 2) 0)
          + lj_pair_force sigma_c epsilon_c 2 2 (Vec 0 (5 / 2) 0)])"
    using calculate_fst_no_pcpot[OF pcpot_ACN_init raw] by simp
  have w: "1 - NMe ase_units * MCN ase_units * CMe - NN ase_units * MCN ase_units * CMe
             = 513392586026501 / 683063771045746"
    "NMe ase_units * MMeN ase_units + NN ase_units * MMeN ase_units
             = 480032556413375 / 683063771045746"
    "1 - NN ase_units * MMeC ase_units * CN - NMe ase_units * MMeC ase_units * CN
             = 226779805551548 / 341531885522873"
    by (simp_all add: NN_def NMe_def MCN_def MMeC_def MMeN_def mC_def mN_def mMe_def CN_def CMe_def
        rMeN_def rMeC_def rCN_def ase_units_def power2_eq_square)
  define k01 where "k01 = lj_factor (88209 / 6400) (2093941 / 250000)"
  define k02 where "k02 = lj_factor (77841 / 6400) (523529 / 40000)"
  define k12 where "k12 = lj_factor (18769 / 1600) (7588649 / 1000000)"
  have k01: "41 / 10 \<le> k01"
  proof -
    have "(2 * (164 / 100) ^ 3 - 1) * (164 / 100) ^ 3 / (2093941 / 250000) \<le> k01"
      unfolding k01_def by (rule lj_factor_lower) simp_all
    then show ?thesis by (simp add: power3_eq_cube)
  qed
  have k12: "3 \<le> k12"
  proof -
    have "(2 * (154 / 100) ^ 3 - 1) * (154 / 100) ^ 3 / (7588649 / 1000000) \<le> k12"
      unfolding k12_def by (rule lj_factor_lower) simp_all
    then show ?thesis by (simp add: power3_eq_cube)
  qed
  have k02: "0 \<le> k02"
    unfolding k02_def by (rule lj_factor_nonneg) simp_all
  define P01 where "P01 = E01 * k01"
  define P02 where "P02 = E02 * k02"
  define P12 where "P12 = E12 * k12"
  have P01: "67 / 10000 * (41 / 10) \<le> P01"
    unfolding P01_def using b01 k01 by (intro mult_mono) simp_all
  have P12: "6 / 1000 * 3 \<le> P12"
    unfolding P12_def using b12 k12 by (intro mult_mono) simp_all
  have P02: "0 \<le> P02"
    unfolding P02_def using b02 k02 by simp
  note s1 = sc[unfolded One_nat_def] and e1 = ecE[unfolded One_nat_def]
  have v: "vx (lj_pair_force sigma_c epsilon_c 0 0 (Vec 0 (5 / 2) 0)) = 0"
    "vx (lj_pair_force sigma_c epsilon_c 1 1 (Vec 0 (5 / 2) 0)) = 0"
    "vx (lj_pair_force sigma_c epsilon_c 2 2 (Vec 0 (5 / 2) 0)) = 0"
    "vx (lj_pair_force sigma_c epsilon_c 0 1 (Vec (- (729 / 500)) (5 / 2) 0)) = - (729 / 500) * (24 * P01)"
    "vx (lj_pair_force sigma_c epsilon_c 1 0 (Vec (729 / 500) (5 / 2) 0)) = 729 / 500 * (24 * P01)"
    "vx (lj_pair_force sigma_c epsilon_c 0 2 (Vec (- (523 / 200)) (5 / 2) 0)) = - (523 / 200) * (24 * P02)"
    "vx (lj_pair_force sigma_c epsilon_c 2 0 (Vec (523 / 200) (5 / 2) 0)) = 523 / 200 * (24 * P02)"
    "vx (lj_pair_force sigma_c epsilon_c 1 2 (Vec (- (1157 / 1000)) (5 / 2) 0)) = - (1157 / 1000) * (24 * P12)"
    "vx (lj_pair_force sigma_c epsilon_c 2 1 (Vec (1157 / 1000) (5 / 2) 0)) = 1157 / 1000 * (24 * P12)"
    by (simp_all add: vx_lj_pair_force s1 e1 norm2_def power2_eq_square
        P01_def P02_def P12_def k01_def k02_def k12_def)
  have "vx (sum_list (redistribute_forces ase_units 2 0
     [- (lj_pair_force sigma_c epsilon_c 0 0 (Vec 0 (5 / 2) 0)
          + lj_pair_force sigma_c epsilon_c 1 0 (Vec (729 / 500) (5 / 2) 0)
          + lj_pair_force sigma_c epsilon_c 2 0 (Vec (523 / 200) (5 / 2) 0)),
      - (lj_pair_force sigma_c epsilon_c 0 1 (Vec (- (729 / 500)) (5 / 2) 0)
          + lj_pair_force sigma_c epsilon_c 1 1 (Vec 0 (5 / 2) 0)
          + lj_pair_force sigma_c epsilon_c 2 1 (Vec (1157 / 1000) (5 / 2) 0)),
      - (lj_pair_force sigma_c epsilon_c 0 2 (Vec (- (523 / 200)) (5 / 2) 0)
          + lj_pair_force sigma_c epsilon_c 1 2 (Vec (- (1157 / 1000)) (5 / 2) 0)
          + lj_pair_force sigma_c epsilon_c 2 2 (Vec 0 (5 / 2) 0)),
      lj_pair_force sigma_c epsilon_c 0 0 (Vec 0 (5 / 2) 0)
          + lj_pair_force sigma_c epsilon_c 0 1 (Vec (- (729 / 500)) (5 / 2) 0)
          + lj_pair_force sigma_c epsilon_c 0 2 (Vec (- (523 / 200)) (5 / 2) 0),
      lj_pair_force sigma_c epsilon_c 1 0 (Vec (729 / 500) (5 / 2) 0)
          + lj_pair_force sigma_c epsilon_c 1 1 (Vec 0 (5 / 2) 0)
          + lj_pair_force sigma_c epsilon_c 1 2 (Vec (- (1157 / 1000)) (5 / 2) 0),
      lj_pair_force sigma_c epsilon_c 2 0 (Vec (523 / 200) (5 / 2) 0)
          + lj_pair_force sigma_c epsilon_c 2 1 (Vec (1157 / 1000) (5 / 2) 0)
          + lj_pair_force sigma_c epsilon_c 2 2 (Vec 0 (5 / 2) 0)])) < - (1 / 10)"
    unfolding sum_redistribute_two w vx_simps v
    using P01 P02 P12 by (simp add: field_simps)
  then show ?thesis unfolding calc by simp
qed

section \<open>The evaluation and the external field\<close>

lemma pc_calculate_state:
  assumes "length qmcharges = length qmpositions \<or> length qmcharges = 1"
  shows "mmpositions (snd (pc_calculate u self qmcharges qmpositions)) = None"
    and "mmcharges (snd (pc_calculate u self qmcharges qmpositions)) = mmcharges self"
proof -
  have bc: "\<exists>q. broadcast_charges qmcharges (length qmpositions) = Inr q"
    using assms by (auto simp: broadcast_charges_def)
  show "mmpositions (snd (pc_calculate u self qmcharges qmpositions)) = None"
    using bc by (auto simp: pc_calculate_def Let_def split: option.splits prod.splits)
  show "mmcharges (snd (pc_calculate u self qmcharges qmpositions)) = mmcharges self"
    by (auto simp: pc_calculate_def Let_def split: option.splits prod.splits sum.splits)
qed

lemma length_tile: "length (concat (replicate n xs)) = n * length xs"
  by (induction n) simp_all

lemma calculate_raw_shapes:
  assumes "calculate_raw u self s = Inr raw"
  shows "length (concat (replicate (raw_nm raw) (raw_charges raw))) = length (map position (atoms s))"
proof -
  from assms obtain R where R: "reshape_molecules (map position (atoms s)) = Inr R"
    by (auto simp: calculate_raw_def split: sum.splits)
  then have m: "length (atoms s) mod 3 = 0" and Rc: "R = chunks3 (map position (atoms s))"
    by (auto simp: reshape_molecules_def split: if_splits)
  from assms R obtain n me where Z: "check_sequence (map number (atoms s)) = Inr (n, me)"
    by (auto simp: calculate_raw_def Let_def split: sum.splits if_splits)
  then have ne: "atoms s \<noteq> []"
    by (auto simp: check_sequence_def)
  from assms R Z have nm: "raw_nm raw = length R" and ch: "raw_charges raw = map charge (take 3 (atoms s))"
    by (auto simp: calculate_raw_def Let_def split: sum.splits if_splits)
  from m ne have "3 \<le> length (atoms s)"
    by (cases "atoms s" rule: chunks3.cases) auto
  then have l3: "length (raw_charges raw) = 3" by (simp add: ch)
  have "length R * 3 = length (atoms s)"
    using m by (simp add: Rc length_chunks3 mod_eq_0_iff_dvd)
  then show ?thesis by (simp add: length_tile nm l3)
qed

text \<open>
  \<^verbatim>\<open>ACN.calculate\<close> passes \<^verbatim>\<open>np.tile(charges, nm)\<close> and the positions, one charge per
  atom: whenever the evaluation reaches the external field, the field's position
  buffer is cleared and its charges are kept.
\<close>

lemma calculate_clears_positions:
  assumes "pcpot self = Some pc" and "calculate_raw u self s = Inr raw"
  shows "\<exists>pc'. pcpot (snd (calculate u self s)) = Some pc' \<and> mmpositions pc' = None \<and>
           mmcharges pc' = mmcharges pc"
proof -
  let ?q = "concat (replicate (raw_nm raw) (raw_charges raw))" and ?r = "map position (atoms s)"
  have "length ?q = length ?r \<or> length ?q = 1"
    using calculate_raw_shapes[OF assms(2)] by blast
  note st = pc_calculate_state[OF this, of u pc]
  obtain res pc' where pcc: "pc_calculate u pc ?q ?r = (res, pc')"
    by (cases "pc_calculate u pc ?q ?r")
  from st have "mmpositions pc' = None" "mmcharges pc' = mmcharges pc" by (simp_all add: pcc)
  moreover have "pcpot (snd (calculate u self s)) = Some pc'"
    by (cases res) (auto simp: calculate_def assms pcc split: prod.splits)
  ultimately show ?thesis by blast
qed

end
